theory Spec2Isabelle
  imports
    Complex_Main
    "HOL-Library.Multiset"
    "HOL-Library.Char_ord"
    "HOL-Library.List_Lexorder"
    "HOL-Library.Product_Lexorder"
begin

section \<open>Data model\<close>

text \<open>
  The notebook \<^verbatim>\<open>code/1) Data Merging.ipynb\<close> is a linear sequence of pandas
  statements. Each statement is embedded as a function from tables to tables, named
  after the variable the notebook assigns.

  \<^item> A timestamp is an integer number of seconds counted from 2013-01-01 00:00:00, so
    that the start of the analysis year is \<open>0\<close> and, 2013 having 365 days, the year ends
    just before \<open>365 * 86400\<close>. Hour boundaries are the multiples of 3600.
  \<^item> A numeric cell is a \<open>real option\<close>: \<open>None\<close> is the null (NaN) of pandas.
    Floating-point rounding is not modelled; arithmetic is exact.
  \<^item> A household identifier is a column label, a string; strings are ordered
    lexicographically by character code, as Python orders them.
\<close>

type_synonym timestamp = int
type_synonym household_id = string

text \<open>A row of the long (melted) consumption table: \<open>GMT\<close>, \<open>household_id\<close>, \<open>consumption\<close>.\<close>
type_synonym reading = "timestamp \<times> household_id \<times> real option"

text \<open>A row of the tariff table: \<open>GMT\<close>, \<open>Price\<close>.\<close>
type_synonym tariff_rate = "timestamp \<times> real option"

text \<open>
  The wide consumption table read from \<^verbatim>\<open>consumption_d.csv\<close>: the household columns
  in file order, and the rows, each a \<open>GMT\<close> value with one cell per column label.
  \<^verbatim>\<open>read_csv\<close> makes the column labels distinct.
\<close>
record consumption_table =
  household_columns :: "household_id list"
  wide_rows :: "(timestamp \<times> (household_id \<Rightarrow> real option)) list"

definition year_start :: timestamp where
  "year_start = 0"

definition year_end :: timestamp where
  "year_end = 365 * 86400"

text \<open>\<^verbatim>\<open>df['GMT'].dt.year == 2013\<close>\<close>
definition dt_year_is_2013 :: "timestamp \<Rightarrow> bool" where
  "dt_year_is_2013 t \<longleftrightarrow> year_start \<le> t \<and> t < year_end"

abbreviation gmt_of :: "reading \<Rightarrow> timestamp" where
  "gmt_of r \<equiv> fst r"

abbreviation household_of :: "reading \<Rightarrow> household_id" where
  "household_of r \<equiv> fst (snd r)"

abbreviation consumption_of :: "reading \<Rightarrow> real option" where
  "consumption_of r \<equiv> snd (snd r)"

section \<open>Consumption and tariff pipeline\<close>

subsection \<open>Filtering to the analysis year\<close>

text \<open>\<^verbatim>\<open>tariff_data[tariff_data['GMT'].dt.year == 2013]\<close>\<close>
definition tariff_data_filtered :: "tariff_rate list \<Rightarrow> tariff_rate list" where
  "tariff_data_filtered tariff_data = filter (\<lambda>r. dt_year_is_2013 (fst r)) tariff_data"

text \<open>
  \<^verbatim>\<open>consumption_data[(GMT.dt.year == 2013) & (GMT != '2013-01-01 00:00:00')]\<close>:
  a row mask; the columns are untouched.
\<close>
definition consumption_data_filtered :: "consumption_table \<Rightarrow> consumption_table" where
  "consumption_data_filtered consumption_data =
     consumption_data\<lparr>wide_rows :=
       filter (\<lambda>r. dt_year_is_2013 (fst r) \<and> fst r \<noteq> year_start) (wide_rows consumption_data)\<rparr>"

subsection \<open>Long format and the missingness filter\<close>

text \<open>
  \<^verbatim>\<open>melt(id_vars=['GMT'], var_name='household_id', value_name='consumption')\<close>
  stacks the value columns one after the other, each paired with the \<open>GMT\<close> column.
\<close>
definition consumption_melted :: "consumption_table \<Rightarrow> reading list" where
  "consumption_melted w =
     concat (map (\<lambda>h. map (\<lambda>r. (fst r, h, snd r h)) (wide_rows w)) (household_columns w))"

text \<open>\<^verbatim>\<open>groupby('household_id').size()\<close>, read at one label: nulls are counted.\<close>
definition groupby_size :: "reading list \<Rightarrow> household_id \<Rightarrow> nat" where
  "groupby_size m h = length (filter (\<lambda>r. household_of r = h) m)"

text \<open>The index of the grouped result: the labels that occur, sorted, each once.\<close>
definition all_households :: "reading list \<Rightarrow> household_id list" where
  "all_households m = sort (remdups (map household_of m))"

text \<open>
  \<^verbatim>\<open>m[m['consumption'].isnull()].groupby('household_id').size().reindex(.., fill_value=0)\<close>
\<close>
definition missing_values :: "reading list \<Rightarrow> household_id \<Rightarrow> nat" where
  "missing_values m h =
     groupby_size (filter (\<lambda>r. consumption_of r = None) m) h"

text \<open>
  \<^verbatim>\<open>(missing_values / size) * 100\<close>. The division is a floating-point division of
  two aligned series; with a zero denominator (and then a zero numerator) it yields NaN
  instead of raising, which is \<open>None\<close> here.
\<close>
definition percentage_missing :: "reading list \<Rightarrow> household_id \<Rightarrow> real option" where
  "percentage_missing m h =
     (if groupby_size m h = 0 then None
      else Some (real (missing_values m h) / real (groupby_size m h) * 100))"

text \<open>\<^verbatim>\<open>all_households[all_households['percentage_missing'] > 5].index\<close>; NaN compares false.\<close>
definition households_to_remove :: "reading list \<Rightarrow> household_id list" where
  "households_to_remove m =
     filter (\<lambda>h. case percentage_missing m h of None \<Rightarrow> False | Some p \<Rightarrow> p > 5)
       (all_households m)"

text \<open>\<^verbatim>\<open>m[~m['household_id'].isin(households_to_remove)]\<close>\<close>
definition consumption_melted_filtered :: "reading list \<Rightarrow> reading list" where
  "consumption_melted_filtered m =
     filter (\<lambda>r. household_of r \<notin> set (households_to_remove m)) m"

subsection \<open>Imputation\<close>

text \<open>A household's series: the \<open>consumption\<close> column of its rows, indexed by \<open>GMT\<close>.\<close>
type_synonym series = "(timestamp \<times> real option) list"

fun valid_points :: "series \<Rightarrow> (timestamp \<times> real) list" where
  "valid_points [] = []"
| "valid_points ((t, None) # s) = valid_points s"
| "valid_points ((t, Some v) # s) = (t, v) # valid_points s"

text \<open>
  \<^verbatim>\<open>numpy.interp\<close> over sample points sorted by their abscissa, the first of them
  passed apart so that the sample is never empty: left of the first point the first
  value, from the last point on the last value, in between the line through the last
  point not after \<open>x\<close> and its successor.
\<close>
fun np_interp :: "timestamp \<times> real \<Rightarrow> (timestamp \<times> real) list \<Rightarrow> timestamp \<Rightarrow> real" where
  "np_interp (x0, y0) [] x = y0"
| "np_interp (x0, y0) ((x1, y1) # ps) x =
     (if x < x0 then y0
      else if x < x1 then y0 + (y1 - y0) / real_of_int (x1 - x0) * real_of_int (x - x0)
      else np_interp (x1, y1) ps x)"

text \<open>
  The pass over one series: a present value stays; a null after the first present value
  (in row order) is interpolated at its own timestamp; a null before it stays null,
  since the default direction of \<^verbatim>\<open>interpolate\<close> is forward. The flag tells whether a
  present value has been passed.
\<close>
fun interp_fill ::
  "timestamp \<times> real \<Rightarrow> (timestamp \<times> real) list \<Rightarrow> bool \<Rightarrow> series \<Rightarrow> real option list" where
  "interp_fill p ps seen [] = []"
| "interp_fill p ps seen ((t, Some v) # s) = Some v # interp_fill p ps True s"
| "interp_fill p ps seen ((t, None) # s) =
     (if seen then Some (np_interp p ps t) else None) # interp_fill p ps seen s"

text \<open>
  \<^verbatim>\<open>x.interpolate(method='time')\<close>: the timestamps are the abscissae. A series with no
  present value is returned as it is. The present points are handed to the interpolation
  ordered by timestamp; which of two points of one timestamp comes first is immaterial
  below, where no property depends on the value an interpolation yields.
\<close>
definition interpolate_time :: "series \<Rightarrow> real option list" where
  "interpolate_time s =
     (case sort_key fst (valid_points s) of
        [] \<Rightarrow> map snd s
      | p # ps \<Rightarrow> interp_fill p ps False s)"

fun ffill_from :: "real option \<Rightarrow> real option list \<Rightarrow> real option list" where
  "ffill_from last_seen [] = []"
| "ffill_from last_seen (Some v # vs) = Some v # ffill_from (Some v) vs"
| "ffill_from last_seen (None # vs) = last_seen # ffill_from last_seen vs"

definition ffill :: "real option list \<Rightarrow> real option list" where
  "ffill vs = ffill_from None vs"

definition bfill :: "real option list \<Rightarrow> real option list" where
  "bfill vs = rev (ffill (rev vs))"

text \<open>The lambda given to \<^verbatim>\<open>transform\<close>: \<^verbatim>\<open>x.interpolate(method='time').ffill().bfill()\<close>.\<close>
definition impute_series :: "series \<Rightarrow> real option list" where
  "impute_series s = bfill (ffill (interpolate_time s))"

definition group_series :: "reading list \<Rightarrow> household_id \<Rightarrow> series" where
  "group_series m h =
     map (\<lambda>r. (gmt_of r, consumption_of r)) (filter (\<lambda>r. household_of r = h) m)"

text \<open>
  \<^verbatim>\<open>groupby('household_id')['consumption'].transform(..)\<close> writes each group's result
  back at the rows of the group, in row order. The first argument holds, per household,
  the transformed values not yet written; a group's result is as long as the group, so
  the empty case is not reached.
\<close>
fun assign_transformed ::
  "(household_id \<Rightarrow> real option list) \<Rightarrow> reading list \<Rightarrow> reading list" where
  "assign_transformed f [] = []"
| "assign_transformed f (r # rs) =
     (case f (household_of r) of
        [] \<Rightarrow> r # assign_transformed f rs
      | x # xs \<Rightarrow>
          (gmt_of r, household_of r, x) # assign_transformed (f(household_of r := xs)) rs)"

definition consumption_imputed :: "reading list \<Rightarrow> reading list" where
  "consumption_imputed m = assign_transformed (\<lambda>h. impute_series (group_series m h)) m"


subsection \<open>Hourly aggregation and merge\<close>

text \<open>\<^verbatim>\<open>(GMT + pd.Timedelta(minutes=30)).dt.floor('H')\<close>\<close>
definition hour :: "timestamp \<Rightarrow> timestamp" where
  "hour t = ((t + 1800) div 3600) * 3600"

fun dropna :: "real option list \<Rightarrow> real list" where
  "dropna [] = []"
| "dropna (None # vs) = dropna vs"
| "dropna (Some v # vs) = v # dropna vs"

text \<open>A grouped \<^verbatim>\<open>sum()\<close> skips nulls; the sum of no value is 0.\<close>
definition sum_skipna :: "real option list \<Rightarrow> real" where
  "sum_skipna vs = sum_list (dropna vs)"

text \<open>A grouped \<^verbatim>\<open>mean()\<close> skips nulls; the mean of no value is null.\<close>
definition mean_skipna :: "real option list \<Rightarrow> real option" where
  "mean_skipna vs =
     (case dropna vs of [] \<Rightarrow> None | x # xs \<Rightarrow> Some (sum_list (x # xs) / real (length (x # xs))))"

text \<open>A row of \<open>consumption_hourly\<close>: \<open>hour\<close>, \<open>household_id\<close>, \<open>consumption\<close>.\<close>
type_synonym hourly_consumption = "timestamp \<times> household_id \<times> real"

text \<open>
  \<^verbatim>\<open>groupby(['hour', 'household_id'])['consumption'].sum().reset_index()\<close>: one row
  per key that occurs, the keys sorted.
\<close>
definition consumption_hourly :: "reading list \<Rightarrow> hourly_consumption list" where
  "consumption_hourly imp =
     map (\<lambda>k. (fst k, snd k,
            sum_skipna (map consumption_of
              (filter (\<lambda>r. hour (gmt_of r) = fst k \<and> household_of r = snd k) imp))))
       (sort (remdups (map (\<lambda>r. (hour (gmt_of r), household_of r)) imp)))"

text \<open>\<^verbatim>\<open>groupby('hour')['Price'].mean().reset_index()\<close>\<close>
definition tariff_hourly :: "tariff_rate list \<Rightarrow> tariff_rate list" where
  "tariff_hourly tf =
     map (\<lambda>k. (k, mean_skipna (map snd (filter (\<lambda>r. hour (fst r) = k) tf))))
       (sort (remdups (map (\<lambda>r. hour (fst r)) tf)))"

text \<open>A row of the merged output: \<open>timestamp\<close>, \<open>household_id\<close>, \<open>consumption\<close>, \<open>tariff\<close>.\<close>
type_synonym merged_record = "timestamp \<times> household_id \<times> real \<times> real option"

text \<open>
  \<^verbatim>\<open>pd.merge(consumption_hourly, tariff_hourly, on='hour', how='left')\<close>: every left
  row in left order, once per right row with the same key, or once with a null tariff
  when there is none.
\<close>
definition merge_left :: "hourly_consumption list \<Rightarrow> tariff_rate list \<Rightarrow> merged_record list" where
  "merge_left ch th =
     concat (map (\<lambda>l.
       (case filter (\<lambda>r. fst r = fst l) th of
          [] \<Rightarrow> [(fst l, fst (snd l), snd (snd l), None)]
        | m # ms \<Rightarrow> map (\<lambda>r. (fst l, fst (snd l), snd (snd l), snd r)) (m # ms))) ch)"

text \<open>The merge followed by \<^verbatim>\<open>sort_values(by=['timestamp', 'household_id'])\<close>.\<close>
definition merged_data :: "hourly_consumption list \<Rightarrow> tariff_rate list \<Rightarrow> merged_record list" where
  "merged_data ch th = sort_key (\<lambda>r. (fst r, fst (snd r))) (merge_left ch th)"

subsection \<open>The tables handed on\<close>

text \<open>The long table that reaches the imputation, from the raw consumption table.\<close>
definition retained_readings :: "consumption_table \<Rightarrow> reading list" where
  "retained_readings consumption_data =
     consumption_melted_filtered (consumption_melted (consumption_data_filtered consumption_data))"

text \<open>The table written to \<^verbatim>\<open>1a) consumption_and_tariff_data_hourly.csv\<close>.\<close>
definition merged_output :: "tariff_rate list \<Rightarrow> consumption_table \<Rightarrow> merged_record list" where
  "merged_output tariff_data consumption_data =
     merged_data
       (consumption_hourly (consumption_imputed (retained_readings consumption_data)))
       (tariff_hourly (tariff_data_filtered tariff_data))"

section \<open>Weather pipeline\<close>

text \<open>The five measurement columns kept by the consolidator.\<close>
record observation =
  solarradiation :: "real option"
  windspeed :: "real option"
  temp :: "real option"
  precip :: "real option"
  humidity :: "real option"

text \<open>A row of a weather table: the \<open>datetime\<close> index and the measurements.\<close>
type_synonym weather_row = "timestamp \<times> observation"

text \<open>
  \<^verbatim>\<open>sort_index(inplace=True)\<close> is called with the default \<^verbatim>\<open>kind='quicksort'\<close>.
  The library documents \<^verbatim>\<open>'mergesort'\<close> and \<^verbatim>\<open>'stable'\<close> as the only stable kinds: the
  result is ordered by the index and holds the same rows, and the source fixes nothing
  about the order of rows with equal timestamps. Where a property holds whatever that
  order is, the call is described by the results it may have; the sort that runs on a
  concrete table is embedded further down.
  The table sorted is \<^verbatim>\<open>pd.concat(df_list)\<close>, the sources one after the other
  (at least one: \<^verbatim>\<open>pd.concat\<close> raises on an empty list).
\<close>
definition sort_index_result :: "weather_row list \<Rightarrow> weather_row list \<Rightarrow> bool" where
  "sort_index_result df sorted_df \<longleftrightarrow> sorted (map fst sorted_df) \<and> mset sorted_df = mset df"

text \<open>
  \<^verbatim>\<open>merged_df[~merged_df.index.duplicated(keep='first')]\<close>: a row is dropped when its
  timestamp was met before, in table order. The first argument is the timestamps met.
\<close>
fun drop_duplicated :: "timestamp list \<Rightarrow> weather_row list \<Rightarrow> weather_row list" where
  "drop_duplicated seen [] = []"
| "drop_duplicated seen (r # rs) =
     (if fst r \<in> set seen then drop_duplicated seen rs
      else r # drop_duplicated (fst r # seen) rs)"

definition keep_first :: "weather_row list \<Rightarrow> weather_row list" where
  "keep_first df = drop_duplicated [] df"

text \<open>
  \<^verbatim>\<open>index.to_series().diff().dropna()\<close>: from the second row on, the timestamp with
  its distance to the timestamp before.
\<close>
fun time_diffs :: "timestamp list \<Rightarrow> (timestamp \<times> int) list" where
  "time_diffs (a # b # ts) = (b, b - a) # time_diffs (b # ts)"
| "time_diffs ts = []"

text \<open>\<^verbatim>\<open>time_diffs[time_diffs != pd.Timedelta(hours=1)]\<close>\<close>
definition unusual_entries :: "weather_row list \<Rightarrow> (timestamp \<times> int) list" where
  "unusual_entries df = filter (\<lambda>e. snd e \<noteq> 3600) (time_diffs (map fst df))"

text \<open>The error a label lookup raises.\<close>
datatype pipeline_error = KeyError timestamp

text \<open>\<^verbatim>\<open>merged_df.loc[ts]\<close> on a table with one row per timestamp; a missing label raises.\<close>
definition loc :: "weather_row list \<Rightarrow> timestamp \<Rightarrow> pipeline_error + observation" where
  "loc df t = (case map_of df t of None \<Rightarrow> Inl (KeyError t) | Some ob \<Rightarrow> Inr ob)"

text \<open>\<^verbatim>\<open>(float(x) + float(y)) / 2\<close>; a NaN operand gives NaN.\<close>
definition mean_cell :: "real option \<Rightarrow> real option \<Rightarrow> real option" where
  "mean_cell x y =
     (case x of None \<Rightarrow> None
      | Some a \<Rightarrow> (case y of None \<Rightarrow> None | Some b \<Rightarrow> Some ((a + b) / 2)))"

text \<open>\<^verbatim>\<open>prev_row.combine(next_row, lambda x, y: (float(x) + float(y)) / 2)\<close>\<close>
definition combine_mean :: "observation \<Rightarrow> observation \<Rightarrow> observation" where
  "combine_mean p n =
     \<lparr>solarradiation = mean_cell (solarradiation p) (solarradiation n),
      windspeed = mean_cell (windspeed p) (windspeed n),
      temp = mean_cell (temp p) (temp n),
      precip = mean_cell (precip p) (precip n),
      humidity = mean_cell (humidity p) (humidity n)\<rparr>"

text \<open>
  \<^verbatim>\<open>merged_df.loc[ts] = row\<close>: the row with that label is overwritten, and a new label
  is appended at the end of the table.
\<close>
definition set_loc :: "weather_row list \<Rightarrow> timestamp \<Rightarrow> observation \<Rightarrow> weather_row list" where
  "set_loc df t ob =
     (if t \<in> fst ` set df then map (\<lambda>r. if fst r = t then (t, ob) else r) df
      else df @ [(t, ob)])"

text \<open>
  The loop \<^verbatim>\<open>for timestamp, time_diff in unusual_entries.items()\<close>. The entries were
  computed before the loop; the table is the one the loop has updated so far.
\<close>
fun fill_gaps ::
  "weather_row list \<Rightarrow> (timestamp \<times> int) list \<Rightarrow> pipeline_error + weather_row list" where
  "fill_gaps df [] = Inr df"
| "fill_gaps df ((ts, time_diff) # es) =
     (if time_diff = 7200 then
        (case loc df (ts - 7200) of
           Inl e \<Rightarrow> Inl e
         | Inr prev_row \<Rightarrow>
             (case loc df ts of
                Inl e \<Rightarrow> Inl e
              | Inr next_row \<Rightarrow>
                  fill_gaps (set_loc df (ts - 7200 + 3600) (combine_mean prev_row next_row)) es))
      else fill_gaps df es)"

text \<open>
  The gap handler: the loop over the unusual entries of the table, then the second
  \<^verbatim>\<open>sort_index\<close>. \<open>out\<close> is a table the handler may end with; there is none when the
  loop raises.
\<close>
definition weather_gap_handler :: "weather_row list \<Rightarrow> weather_row list \<Rightarrow> bool" where
  "weather_gap_handler df out \<longleftrightarrow>
     (case fill_gaps df (unusual_entries df) of
        Inl e \<Rightarrow> False
      | Inr filled \<Rightarrow> sort_index_result filled out)"

subsection \<open>The default sort on a concrete index\<close>

text \<open>
  For a run on concrete tables the tie order is that of the sort the default kind selects:
  \<^verbatim>\<open>sort_index\<close> leaves a table whose index is already non-decreasing as it is, and
  otherwise takes the rows in the order of numpy's \<^verbatim>\<open>argsort\<close> of kind
  \<^verbatim>\<open>'quicksort'\<close> on the index values. That routine (\<^verbatim>\<open>aquicksort\<close>) works on
  the array \<open>tosort\<close> of row positions between the positions \<open>pl\<close> and \<open>pr\<close>: a range
  of more than 17 entries is partitioned around the median of its first, middle and last
  entry, the larger part is pushed on a stack and the smaller one continued with; a
  shorter range is sorted by insertion. The names are those of the routine, but for
  \<open>p_i\<close> and \<open>p_j\<close>, its \<^verbatim>\<open>pi\<close> and \<^verbatim>\<open>pj\<close>.
\<close>

text \<open>\<^verbatim>\<open>npy_get_msb\<close>: the position of the highest set bit.\<close>
fun npy_get_msb :: "nat \<Rightarrow> nat" where
  "npy_get_msb n = (if n < 2 then 0 else Suc (npy_get_msb (n div 2)))"

text \<open>\<^verbatim>\<open>INTP_SWAP(*i, *j)\<close>\<close>
definition intp_swap :: "nat list \<Rightarrow> nat \<Rightarrow> nat \<Rightarrow> nat list" where
  "intp_swap tosort i j = tosort[i := tosort ! j, j := tosort ! i]"

text \<open>
  \<^verbatim>\<open>do { ++pi; } while (less(v[*pi], vp))\<close>, entered after the increment. The routine
  relies on the pivot parked at \<open>pr - 1\<close> to stop the scan; the bound on the array only
  makes the recursion total.
\<close>
function scan_up :: "timestamp list \<Rightarrow> nat list \<Rightarrow> timestamp \<Rightarrow> nat \<Rightarrow> nat" where
  "scan_up v tosort vp p_i =
     (if p_i < length tosort \<and> v ! (tosort ! p_i) < vp then scan_up v tosort vp (Suc p_i) else p_i)"
  by pat_completeness auto
termination
  by (relation "measure (\<lambda>(v, tosort, vp, p_i). length tosort - p_i)") auto

text \<open>
  \<^verbatim>\<open>do { --pj; } while (less(vp, v[*pj]))\<close>, entered after the decrement; the entry at
  \<open>pl\<close>, not above the pivot, stops it.
\<close>
function scan_down :: "timestamp list \<Rightarrow> nat list \<Rightarrow> timestamp \<Rightarrow> nat \<Rightarrow> nat" where
  "scan_down v tosort vp p_j =
     (if 0 < p_j \<and> vp < v ! (tosort ! p_j) then scan_down v tosort vp (p_j - 1) else p_j)"
  by pat_completeness auto
termination
  by (relation "measure (\<lambda>(v, tosort, vp, p_j). p_j)") auto

text \<open>
  The loop \<^verbatim>\<open>for (;;)\<close> of the partition: both scans, then either the end, with the
  position \<open>p_i\<close> where the pivot belongs, or a swap and another round.
\<close>
partial_function (option) partition_loop ::
  "timestamp list \<Rightarrow> nat list \<Rightarrow> timestamp \<Rightarrow> nat \<Rightarrow> nat \<Rightarrow> (nat list \<times> nat) option" where
  "partition_loop v tosort vp p_i p_j =
     (let next_i = scan_up v tosort vp (Suc p_i);
          next_j = scan_down v tosort vp (p_j - 1)
      in if next_j \<le> next_i then Some (tosort, next_i)
         else partition_loop v (intp_swap tosort next_i next_j) vp next_i next_j)"

declare partition_loop.simps [code]

text \<open>The inner loop of the insertion sort: the entry \<open>vi\<close> moves down to its place.\<close>
function insert_back ::
  "timestamp list \<Rightarrow> nat list \<Rightarrow> nat \<Rightarrow> nat \<Rightarrow> timestamp \<Rightarrow> nat \<Rightarrow> nat list" where
  "insert_back v tosort pl vi vp p_j =
     (if pl < p_j \<and> vp < v ! (tosort ! (p_j - 1))
      then insert_back v (tosort[p_j := tosort ! (p_j - 1)]) pl vi vp (p_j - 1)
      else tosort[p_j := vi])"
  by pat_completeness auto
termination
  by (relation "measure (\<lambda>(v, tosort, pl, vi, vp, p_j). p_j)") auto

text \<open>The insertion sort of the range from \<open>pl\<close> to \<open>pr\<close>, from position \<open>p_i\<close> on.\<close>
function insertion_sort ::
  "timestamp list \<Rightarrow> nat list \<Rightarrow> nat \<Rightarrow> nat \<Rightarrow> nat \<Rightarrow> nat list" where
  "insertion_sort v tosort pl pr p_i =
     (if p_i \<le> pr
      then insertion_sort v (insert_back v tosort pl (tosort ! p_i) (v ! (tosort ! p_i)) p_i) pl pr (Suc p_i)
      else tosort)"
  by pat_completeness auto
termination
  by (relation "measure (\<lambda>(v, tosort, pl, pr, p_i). Suc pr - p_i)") auto

text \<open>
  The main loop, from the test of the inner \<^verbatim>\<open>while ((pr - pl) > SMALL_QUICKSORT)\<close> with
  \<^verbatim>\<open>SMALL_QUICKSORT\<close> 16. The stack holds the ranges put aside, each with the depth
  budget saved with it. When a range is taken from the stack with its budget used up the
  routine switches to heapsort, which is not embedded: the result is then \<open>None\<close>.
\<close>
partial_function (option) aquicksort_loop ::
  "timestamp list \<Rightarrow> nat list \<Rightarrow> nat \<Rightarrow> nat \<Rightarrow> int \<Rightarrow> (nat \<times> nat \<times> int) list \<Rightarrow> nat list option" where
  "aquicksort_loop v tosort pl pr cdepth stack =
     (if 16 < pr - pl then
        (let pm = pl + (pr - pl) div 2;
             t1 = (if v ! (tosort ! pm) < v ! (tosort ! pl) then intp_swap tosort pm pl else tosort);
             t2 = (if v ! (t1 ! pr) < v ! (t1 ! pm) then intp_swap t1 pr pm else t1);
             t3 = (if v ! (t2 ! pm) < v ! (t2 ! pl) then intp_swap t2 pm pl else t2);
             vp = v ! (t3 ! pm);
             t4 = intp_swap t3 pm (pr - 1)
         in Option.bind (partition_loop v t4 vp pl (pr - 1)) (\<lambda>res.
              let p_i = snd res;
                  t5 = intp_swap (fst res) p_i (pr - 1)
              in if p_i - pl < pr - p_i
                 then aquicksort_loop v t5 pl (p_i - 1) (cdepth - 1) ((p_i + 1, pr, cdepth - 1) # stack)
                 else aquicksort_loop v t5 (p_i + 1) pr (cdepth - 1) ((pl, p_i - 1, cdepth - 1) # stack)))
      else
        (let t1 = insertion_sort v tosort pl pr (pl + 1)
         in case stack of
              [] \<Rightarrow> Some t1
            | saved # rest \<Rightarrow>
                if snd (snd saved) < 0 then None
                else aquicksort_loop v t1 (fst saved) (fst (snd saved)) (snd (snd saved)) rest))"

declare aquicksort_loop.simps [code]

text \<open>\<^verbatim>\<open>index.argsort(kind='quicksort')\<close>: the row positions in sorted order.\<close>
definition argsort_quicksort :: "timestamp list \<Rightarrow> nat list option" where
  "argsort_quicksort v =
     aquicksort_loop v [0..<length v] 0 (length v - 1) (2 * int (npy_get_msb (length v))) []"

text \<open>
  \<^verbatim>\<open>merged_df.sort_index(inplace=True)\<close> on a concrete table; a table with a monotonic
  index is returned as it is.
\<close>
definition sort_index :: "weather_row list \<Rightarrow> weather_row list option" where
  "sort_index df =
     (if sorted (map fst df) then Some df
      else map_option (map (\<lambda>i. df ! i)) (argsort_quicksort (map fst df)))"

subsection \<open>Notions used to state the weather claims\<close>

text \<open>The pairs of successive rows of a table.\<close>
definition successive :: "weather_row list \<Rightarrow> (weather_row \<times> weather_row) list" where
  "successive df = zip df (tl df)"

text \<open>The row synthesized between two rows two hours apart.\<close>
definition interpolated_row :: "weather_row \<times> weather_row \<Rightarrow> weather_row" where
  "interpolated_row pn = (fst (fst pn) + 3600, combine_mean (snd (fst pn)) (snd (snd pn)))"

definition two_hours_apart :: "weather_row \<times> weather_row \<Rightarrow> bool" where
  "two_hours_apart pn \<longleftrightarrow> fst (snd pn) - fst (fst pn) = 7200"

text \<open>An observation whose five measurements all read \<open>x\<close>, for sample tables.\<close>
abbreviation (input) measured :: "real \<Rightarrow> observation" where
  "measured x \<equiv>
     \<lparr>solarradiation = Some x, windspeed = Some x, temp = Some x, precip = Some x,
      humidity = Some x\<rparr>"

text \<open>The hourly grid of \<open>n\<close> hours from \<open>s\<close>; the year 2013 is the grid of 8760 hours from 0.\<close>
definition hourly_grid :: "timestamp \<Rightarrow> nat \<Rightarrow> timestamp list" where
  "hourly_grid s n = map (\<lambda>i. s + 3600 * int i) [0..<n]"

section \<open>Properties of the consumption and tariff pipeline\<close>

subsection \<open>The melted table and the missingness statistics\<close>

lemma filter_household_concat:
  "distinct hs \<Longrightarrow>
   filter (\<lambda>r. household_of r = h) (concat (map (\<lambda>h'. map (\<lambda>r. (fst r, h', snd r h')) rows) hs)) =
     (if h \<in> set hs then map (\<lambda>r. (fst r, h, snd r h)) rows else [])"
proof (induction hs)
  case Nil
  then show ?case by simp
next
  case (Cons a hs)
  have a: "filter (\<lambda>r. household_of r = h) (map (\<lambda>r. (fst r, a, snd r a)) rows) =
        (if a = h then map (\<lambda>r. (fst r, h, snd r h)) rows else [])"
    by (induction rows) auto
  from Cons show ?case by (auto simp: a)
qed

lemma filter_household_melted:
  "distinct (household_columns w) \<Longrightarrow> h \<in> set (household_columns w) \<Longrightarrow>
   filter (\<lambda>r. household_of r = h) (consumption_melted w) =
     map (\<lambda>r. (fst r, h, snd r h)) (wide_rows w)"
  by (simp add: consumption_melted_def filter_household_concat)

lemma set_household_melted:
  "household_of ` set (consumption_melted w) =
     (if wide_rows w = [] then {} else set (household_columns w))"
proof (cases "wide_rows w")
  case Nil
  then show ?thesis by (simp add: consumption_melted_def)
next
  case (Cons r rs)
  then show ?thesis by (force simp: consumption_melted_def image_iff)
qed

lemma missing_le_size: "missing_values m h \<le> groupby_size m h"
  unfolding missing_values_def groupby_size_def
  by (induction m) auto

lemma groupby_size_pos_iff: "0 < groupby_size m h \<longleftrightarrow> h \<in> household_of ` set m"
  unfolding groupby_size_def by (induction m) auto

lemma set_all_households: "set (all_households m) = household_of ` set m"
  by (simp add: all_households_def)

lemma percentage_missing_range:
  "percentage_missing m h = Some p \<Longrightarrow> 0 \<le> p \<and> p \<le> 100"
  using missing_le_size [of m h]
  by (auto simp: percentage_missing_def split: if_splits  simp: divide_le_eq)

text \<open>
  C8. The filtered tariff table holds exactly the tariff rows with a timestamp from
  2013-01-01 00:00:00 up to, not including, 2014-01-01 00:00:00, in their order; the
  filtered consumption table holds exactly the consumption rows of that range other than
  those at 2013-01-01 00:00:00, in their order, with the household columns unchanged.
\<close>
theorem year_filter_exact:
  "tariff_data_filtered tariff_data =
     filter (\<lambda>r. 0 \<le> fst r \<and> fst r < 365 * 86400) tariff_data
   \<and> wide_rows (consumption_data_filtered consumption_data) =
     filter (\<lambda>r. fst r \<noteq> 0)
       (filter (\<lambda>r. 0 \<le> fst r \<and> fst r < 365 * 86400) (wide_rows consumption_data))
   \<and> household_columns (consumption_data_filtered consumption_data) =
     household_columns consumption_data"
  by (simp add: tariff_data_filtered_def consumption_data_filtered_def dt_year_is_2013_def
      year_start_def year_end_def conj_commute)

theorem year_filter_exact_witness:
  "tariff_data_filtered [(-1800, Some 1), (0, Some 2), (31534200, None), (31536000, Some 3)] =
     [(0, Some 2), (31534200, None)]
   \<and> map fst (wide_rows (consumption_data_filtered
        \<lparr>household_columns = [''MAC001''],
         wide_rows = [(-1800, \<lambda>h. None), (0, \<lambda>h. None), (1800, \<lambda>h. None),
                      (31534200, \<lambda>h. None), (31536000, \<lambda>h. None)]\<rparr>)) =
     [1800, 31534200]"
  using year_filter_exact
    [of "[(-1800, Some 1), (0, Some 2), (31534200, None), (31536000, Some 3)]"
        "\<lparr>household_columns = [''MAC001''],
         wide_rows = [(-1800, \<lambda>h. None), (0, \<lambda>h. None), (1800, \<lambda>h. None),
                      (31534200, \<lambda>h. None), (31536000, \<lambda>h. None)]\<rparr>"]
  by simp

text \<open>
  C10. For every household column of a table with distinct column labels, the denominator of the missingness percentage is the
  number of rows of that household in the melted table, nulls included, which is the
  number of filtered timestamps. When the filtered table has a row the denominator is
  positive and the percentage exists and lies between 0 and 100; every household the
  computation divides for has a positive denominator.
\<close>
theorem missingness_denominator:
  assumes "distinct (household_columns w)" and "h \<in> set (household_columns w)"
  shows "groupby_size (consumption_melted (consumption_data_filtered w)) h =
           length (wide_rows (consumption_data_filtered w))
         \<and> (wide_rows (consumption_data_filtered w) \<noteq> [] \<longrightarrow>
              0 < groupby_size (consumption_melted (consumption_data_filtered w)) h
              \<and> (\<exists>p. percentage_missing (consumption_melted (consumption_data_filtered w)) h = Some p
                      \<and> 0 \<le> p \<and> p \<le> 100))
         \<and> (\<forall>h' \<in> set (all_households (consumption_melted (consumption_data_filtered w))).
              0 < groupby_size (consumption_melted (consumption_data_filtered w)) h')"
proof -
  let ?w = "consumption_data_filtered w"
  let ?m = "consumption_melted ?w"
  have cols: "household_columns ?w = household_columns w"
    by (simp add: consumption_data_filtered_def)
  have size: "groupby_size ?m h = length (wide_rows ?w)"
    unfolding groupby_size_def
    using assms by (simp add: filter_household_melted cols)
  have pct: "\<exists>p. percentage_missing ?m h = Some p \<and> 0 \<le> p \<and> p \<le> 100"
    if "wide_rows ?w \<noteq> []"
  proof -
    from that size have "groupby_size ?m h \<noteq> 0" by simp
    then obtain p where "percentage_missing ?m h = Some p"
      by (simp add: percentage_missing_def)
    with percentage_missing_range show ?thesis by blast
  qed
  have all: "\<forall>h' \<in> set (all_households ?m). 0 < groupby_size ?m h'"
    by (simp add: set_all_households groupby_size_pos_iff)
  from size pct all show ?thesis by simp
qed

theorem missingness_denominator_witness:
  "distinct (household_columns
      \<lparr>household_columns = [''MAC001'', ''MAC002''],
       wide_rows = [(0, \<lambda>h. None), (1800, \<lambda>h. if h = ''MAC001'' then Some 1 else None),
                    (3600, \<lambda>h. None)]\<rparr>)
   \<and> ''MAC001'' \<in> set (household_columns
      \<lparr>household_columns = [''MAC001'', ''MAC002''],
       wide_rows = [(0, \<lambda>h. None), (1800, \<lambda>h. if h = ''MAC001'' then Some 1 else None),
                    (3600, \<lambda>h. None)]\<rparr>)
   \<and> groupby_size (consumption_melted (consumption_data_filtered
      \<lparr>household_columns = [''MAC001'', ''MAC002''],
       wide_rows = [(0, \<lambda>h. None), (1800, \<lambda>h. if h = ''MAC001'' then Some 1 else None),
                    (3600, \<lambda>h. None)]\<rparr>)) ''MAC001'' = 2
   \<and> percentage_missing (consumption_melted (consumption_data_filtered
      \<lparr>household_columns = [''MAC001'', ''MAC002''],
       wide_rows = [(0, \<lambda>h. None), (1800, \<lambda>h. if h = ''MAC001'' then Some 1 else None),
                    (3600, \<lambda>h. None)]\<rparr>)) ''MAC001'' = Some 50"
  using missingness_denominator
    [of "\<lparr>household_columns = [''MAC001'', ''MAC002''],
       wide_rows = [(0, \<lambda>h. None), (1800, \<lambda>h. if h = ''MAC001'' then Some 1 else None),
                    (3600, \<lambda>h. None)]\<rparr>" "''MAC001''"]
  by (simp add: consumption_data_filtered_def dt_year_is_2013_def year_start_def year_end_def
      percentage_missing_def missing_values_def groupby_size_def consumption_melted_def)

subsection \<open>Imputation\<close>

lemma assign_transformed_keys:
  "map (\<lambda>r. (gmt_of r, household_of r)) (assign_transformed f rs) =
   map (\<lambda>r. (gmt_of r, household_of r)) rs"
  by (induction rs arbitrary: f) (auto split: list.splits)

lemma assign_transformed_rel:
  assumes "\<And>h. list_all2 Q (filter (\<lambda>r. household_of r = h) rs) (f h)"
  shows "list_all2 (\<lambda>r r'. Q r (consumption_of r')) rs (assign_transformed f rs)"
  using assms
proof (induction rs arbitrary: f)
  case Nil
  then show ?case by simp
next
  case (Cons r rs)
  from Cons.prems [of "household_of r"]
  obtain x xs where fx: "f (household_of r) = x # xs" and qx: "Q r x"
    and rest: "list_all2 Q (filter (\<lambda>q. household_of q = household_of r) rs) xs"
    by (auto simp: list_all2_Cons1)
  have "list_all2 Q (filter (\<lambda>q. household_of q = h) rs) ((f(household_of r := xs)) h)" for h
    using Cons.prems [of h] rest by (cases "h = household_of r") auto
  from Cons.IH [OF this] fx qx show ?case by (simp add: fun_upd_def)
qed

lemma interp_fill_keeps:
  "list_all2 (\<lambda>e x. snd e \<noteq> None \<longrightarrow> x = snd e) s (interp_fill p ps seen s)"
  by (induction p ps seen s rule: interp_fill.induct) auto

lemma interpolate_time_keeps:
  "list_all2 (\<lambda>e x. snd e \<noteq> None \<longrightarrow> x = snd e) s (interpolate_time s)"
proof (cases "sort_key fst (valid_points s)")
  case Nil
  then show ?thesis by (simp add: interpolate_time_def list_all2_map2 list_all2_same)
next
  case (Cons p ps)
  then show ?thesis using interp_fill_keeps [of s p ps False] by (simp add: interpolate_time_def)
qed

lemma ffill_from_keeps:
  "list_all2 (\<lambda>v x. v \<noteq> None \<longrightarrow> x = v) vs (ffill_from l vs)"
  by (induction l vs rule: ffill_from.induct) auto

lemma ffill_keeps: "list_all2 (\<lambda>v x. v \<noteq> None \<longrightarrow> x = v) vs (ffill vs)"
  unfolding ffill_def by (rule ffill_from_keeps)

lemma bfill_keeps: "list_all2 (\<lambda>v x. v \<noteq> None \<longrightarrow> x = v) vs (bfill vs)"
proof -
  have "list_all2 (\<lambda>v x. v \<noteq> None \<longrightarrow> x = v) (rev vs) (ffill (rev vs))"
    by (rule ffill_keeps)
  then have "list_all2 (\<lambda>v x. v \<noteq> None \<longrightarrow> x = v) (rev (rev vs)) (rev (ffill (rev vs)))"
    by (simp only: list_all2_rev)
  then show ?thesis by (simp add: bfill_def)
qed

lemma impute_series_keeps:
  "list_all2 (\<lambda>e x. snd e \<noteq> None \<longrightarrow> x = snd e) s (impute_series s)"
proof -
  have fills: "list_all2 (\<lambda>v x. v \<noteq> None \<longrightarrow> x = v)
      (interpolate_time s) (bfill (ffill (interpolate_time s)))"
    by (rule list_all2_trans [OF _ ffill_keeps bfill_keeps]) auto
  show ?thesis
    unfolding impute_series_def
    by (rule list_all2_trans [OF _ interpolate_time_keeps fills]) auto
qed

lemma length_impute_series: "length (impute_series s) = length s"
  using impute_series_keeps [of s] by (rule list_all2_lengthD [symmetric])

lemma ffill_from_Some: "l \<noteq> None \<Longrightarrow> None \<notin> set (ffill_from l vs)"
  by (induction l vs rule: ffill_from.induct) auto

lemma ffill_from_last:
  "Some x \<in> set vs \<Longrightarrow> ffill_from l vs \<noteq> [] \<and> last (ffill_from l vs) \<noteq> None"
proof (induction l vs rule: ffill_from.induct)
  case (1 l)
  then show ?case by simp
next
  case (2 l v vs)
  show ?case
  proof (cases "ffill_from (Some v) vs = []")
    case True
    then show ?thesis by simp
  next
    case False
    with ffill_from_Some [of "Some v" vs] show ?thesis
      by (metis ffill_from.simps(2) last_ConsR last_in_set list.distinct(1) option.distinct(1))
  qed
next
  case (3 l vs)
  then show ?case by auto
qed

lemma bfill_full:
  assumes "vs \<noteq> []" and "last vs \<noteq> None"
  shows "None \<notin> set (bfill vs)"
proof -
  from assms obtain x ws where "rev vs = Some x # ws"
    by (cases "rev vs") (auto simp: last_rev [symmetric] hd_rev)
  then show ?thesis
    using ffill_from_Some [of "Some x" ws] by (simp add: bfill_def ffill_def)
qed

lemma impute_series_full:
  assumes "(t, Some x) \<in> set s"
  shows "None \<notin> set (impute_series s)"
proof -
  have "Some x \<in> set (interpolate_time s)"
    using interpolate_time_keeps [of s] assms
    by (auto simp: list_all2_conv_all_nth in_set_conv_nth)
  from ffill_from_last [OF this, of None] show ?thesis
    by (simp add: impute_series_def ffill_def bfill_full)
qed

lemma consumption_imputed_keys:
  "map (\<lambda>r. (gmt_of r, household_of r)) (consumption_imputed m) =
   map (\<lambda>r. (gmt_of r, household_of r)) m"
  by (simp add: consumption_imputed_def assign_transformed_keys)

lemma consumption_imputed_keeps:
  "list_all2 (\<lambda>r r'. consumption_of r \<noteq> None \<longrightarrow> consumption_of r' = consumption_of r)
     m (consumption_imputed m)"
  unfolding consumption_imputed_def
proof (rule assign_transformed_rel)
  fix h
  show "list_all2 (\<lambda>r x. consumption_of r \<noteq> None \<longrightarrow> x = consumption_of r)
          (filter (\<lambda>r. household_of r = h) m) (impute_series (group_series m h))"
    using impute_series_keeps [of "group_series m h"]
    by (simp add: group_series_def list_all2_map1 del: not_None_eq)
qed

lemma list_all2_present:
  "length xs = length ys \<Longrightarrow> None \<notin> set ys \<Longrightarrow> list_all2 (\<lambda>r x. x \<noteq> None) xs ys"
proof (induction xs ys rule: list_induct2)
  case Nil
  then show ?case by simp
next
  case (Cons x xs y ys)
  then show ?case by (cases y) auto
qed

lemma consumption_imputed_full:
  assumes "\<And>r. r \<in> set m \<Longrightarrow>
             \<exists>r' \<in> set m. household_of r' = household_of r \<and> consumption_of r' \<noteq> None"
  shows "None \<notin> consumption_of ` set (consumption_imputed m)"
proof -
  have "list_all2 (\<lambda>r x. x \<noteq> None) (filter (\<lambda>r. household_of r = h) m)
          (impute_series (group_series m h))" for h
  proof (cases "h \<in> household_of ` set m")
    case False
    then have "filter (\<lambda>r. household_of r = h) m = []"
      by (auto simp: filter_empty_conv)
    then show ?thesis
      using length_impute_series [of "group_series m h"] by (simp add: group_series_def)
  next
    case True
    with assms obtain r' where "r' \<in> set m" "household_of r' = h" "consumption_of r' \<noteq> None"
      by force
    then obtain x where "consumption_of r' = Some x" by auto
    with \<open>r' \<in> set m\<close> \<open>household_of r' = h\<close>
    have "(gmt_of r', Some x) \<in> set (group_series m h)"
      unfolding group_series_def set_map set_filter
      by (intro image_eqI [of _ _ r']) auto
    from impute_series_full [OF this] length_impute_series [of "group_series m h"]
    show ?thesis
      by (intro list_all2_present) (simp_all add: group_series_def)
  qed
  from assign_transformed_rel [of "\<lambda>r x. x \<noteq> None" m, OF this]
  have all: "list_all2 (\<lambda>r r'. consumption_of r' \<noteq> None) m (consumption_imputed m)"
    by (simp add: consumption_imputed_def del: not_None_eq)
  have "consumption_of r' \<noteq> None" if "r' \<in> set (consumption_imputed m)" for r'
  proof -
    from that obtain i where "i < length (consumption_imputed m)" "consumption_imputed m ! i = r'"
      by (auto simp: in_set_conv_nth)
    with list_all2_nthD2 [OF all] show ?thesis by blast
  qed
  then show ?thesis by force
qed

lemma set_households_to_remove:
  "h \<in> set (households_to_remove m) \<longleftrightarrow>
     h \<in> household_of ` set m \<and> (\<exists>p. percentage_missing m h = Some p \<and> 5 < p)"
  by (auto simp: households_to_remove_def set_all_households split: option.splits)

lemma not_removed_has_value:
  assumes "r \<in> set m" and "household_of r \<notin> set (households_to_remove m)"
  shows "\<exists>r' \<in> set m. household_of r' = household_of r \<and> consumption_of r' \<noteq> None"
proof (rule ccontr)
  assume "\<not> ?thesis"
  then have "filter (\<lambda>q. household_of q = household_of r) (filter (\<lambda>q. consumption_of q = None) m) =
               filter (\<lambda>q. household_of q = household_of r) m"
    by (auto intro!: filter_cong)
  then have eq: "missing_values m (household_of r) = groupby_size m (household_of r)"
    by (simp add: missing_values_def groupby_size_def)
  from assms(1) have pos: "0 < groupby_size m (household_of r)"
    by (auto simp: groupby_size_pos_iff)
  with eq have "percentage_missing m (household_of r) = Some 100"
    by (simp add: percentage_missing_def)
  with assms show False
    by (auto simp: set_households_to_remove)
qed

lemma retained_has_value:
  assumes "r \<in> set (consumption_melted_filtered m)"
  shows "\<exists>r' \<in> set (consumption_melted_filtered m).
           household_of r' = household_of r \<and> consumption_of r' \<noteq> None"
proof -
  from assms have "r \<in> set m" "household_of r \<notin> set (households_to_remove m)"
    by (auto simp: consumption_melted_filtered_def)
  from not_removed_has_value [OF this]
  obtain r' where "r' \<in> set m" "household_of r' = household_of r" "consumption_of r' \<noteq> None"
    by blast
  with \<open>household_of r \<notin> set (households_to_remove m)\<close>
  have "r' \<in> set (consumption_melted_filtered m)"
    by (simp add: consumption_melted_filtered_def)
  with \<open>household_of r' = household_of r\<close> \<open>consumption_of r' \<noteq> None\<close>
  show ?thesis by blast
qed

lemma retained_imputed_full:
  "None \<notin> consumption_of ` set (consumption_imputed (consumption_melted_filtered m))"
  by (rule consumption_imputed_full) (rule retained_has_value)

subsection \<open>Hourly aggregation and merge\<close>

lemma consumption_hourly_keys:
  "map (\<lambda>r. (fst r, fst (snd r))) (consumption_hourly imp) =
     sort (remdups (map (\<lambda>r. (hour (gmt_of r), household_of r)) imp))"
  by (simp add: consumption_hourly_def comp_def)

lemma tariff_hourly_keys:
  "map fst (tariff_hourly tf) = sort (remdups (map (\<lambda>r. hour (fst r)) tf))"
  by (simp add: tariff_hourly_def comp_def)

lemma distinct_tariff_hourly: "distinct (map fst (tariff_hourly tf))"
  by (simp add: tariff_hourly_keys)

lemma map_of_tariff_hourly:
  "map_of (tariff_hourly tf) k =
     (if k \<in> (\<lambda>r. hour (fst r)) ` set tf
      then Some (mean_skipna (map snd (filter (\<lambda>r. hour (fst r) = k) tf))) else None)"
  by (simp add: tariff_hourly_def map_of_map_restrict restrict_map_def)

lemma filter_unique_key:
  "distinct (map fst th) \<Longrightarrow>
   filter (\<lambda>r. fst r = k) th = (case map_of th k of None \<Rightarrow> [] | Some p \<Rightarrow> [(k, p)])"
proof (induction th)
  case Nil
  then show ?case by simp
next
  case (Cons a th)
  show ?case
  proof (cases "fst a = k")
    case True
    with Cons.prems have "k \<notin> fst ` set th" by auto
    then have "filter (\<lambda>r. fst r = k) th = []"
      by (auto simp: filter_empty_conv)
    with True show ?thesis by (cases a) simp
  next
    case False
    with Cons show ?thesis by (cases a) simp
  qed
qed

lemma merge_left_unique:
  assumes "distinct (map fst th)"
  shows "merge_left ch th =
     map (\<lambda>l. (fst l, fst (snd l), snd (snd l),
                (case map_of th (fst l) of None \<Rightarrow> None | Some p \<Rightarrow> p))) ch"
proof -
  have "(case filter (\<lambda>r. fst r = fst l) th of
          [] \<Rightarrow> [(fst l, fst (snd l), snd (snd l), None)]
        | m # ms \<Rightarrow> map (\<lambda>r. (fst l, fst (snd l), snd (snd l), snd r)) (m # ms)) =
        [(fst l, fst (snd l), snd (snd l),
          (case map_of th (fst l) of None \<Rightarrow> None | Some p \<Rightarrow> p))]" for l :: hourly_consumption
    by (simp add: filter_unique_key [OF assms] split: option.splits)
  then show ?thesis
    by (simp add: merge_left_def)
qed

lemma mset_merged_data: "mset (merged_data ch th) = mset (merge_left ch th)"
  by (simp add: merged_data_def)

lemma mean_skipna_present:
  "xs \<noteq> [] \<Longrightarrow> mean_skipna (map Some xs) = Some (sum_list xs / real (length xs))"
proof -
  have "dropna (map Some xs) = xs" by (induction xs) auto
  then show "xs \<noteq> [] \<Longrightarrow> ?thesis" by (cases xs) (auto simp: mean_skipna_def)
qed

lemma merged_data_rows:
  "mset (map (\<lambda>r. (fst r, fst (snd r), fst (snd (snd r)))) (merged_data ch (tariff_hourly tf))) =
     mset ch"
proof -
  have "map (\<lambda>r. (fst r, fst (snd r), fst (snd (snd r)))) (merge_left ch (tariff_hourly tf)) = ch"
    by (simp add: merge_left_unique [OF distinct_tariff_hourly] comp_def)
  then have "mset ch =
      mset (map (\<lambda>r. (fst r, fst (snd r), fst (snd (snd r)))) (merge_left ch (tariff_hourly tf)))"
    by (simp only:)
  then show ?thesis by (simp add: merged_data_def)
qed

lemma merged_data_keys:
  "mset (map (\<lambda>r. (fst r, fst (snd r))) (merged_data (consumption_hourly imp) (tariff_hourly tf))) =
     mset (sort (remdups (map (\<lambda>r. (hour (gmt_of r), household_of r)) imp)))"
proof -
  let ?out = "merged_data (consumption_hourly imp) (tariff_hourly tf)"
  have "map (\<lambda>r. (fst r, fst (snd r))) ?out =
        map (\<lambda>r. (fst r, fst (snd r))) (map (\<lambda>r. (fst r, fst (snd r), fst (snd (snd r)))) ?out)"
    by (simp add: comp_def)
  then have "mset (map (\<lambda>r. (fst r, fst (snd r))) ?out) =
      image_mset (\<lambda>r. (fst r, fst (snd r)))
        (mset (map (\<lambda>r. (fst r, fst (snd r), fst (snd (snd r)))) ?out))"
    by (simp only: mset_map)
  also have "\<dots> = image_mset (\<lambda>r. (fst r, fst (snd r))) (mset (consumption_hourly imp))"
    by (simp only: merged_data_rows)
  also have "\<dots> = mset (map (\<lambda>r. (fst r, fst (snd r))) (consumption_hourly imp))"
    by (simp only: mset_map)
  finally show ?thesis by (simp only: consumption_hourly_keys)
qed

lemma merged_data_keys_distinct:
  "distinct (map (\<lambda>r. (fst r, fst (snd r)))
     (merged_data (consumption_hourly imp) (tariff_hourly tf)))"
  using mset_eq_imp_distinct_iff [OF merged_data_keys [of imp tf]] by simp

lemma merged_data_keys_set:
  "(\<lambda>r. (fst r, fst (snd r))) ` set (merged_data (consumption_hourly imp) (tariff_hourly tf)) =
     (\<lambda>r. (hour (gmt_of r), household_of r)) ` set imp"
  using mset_eq_setD [OF merged_data_keys [of imp tf]] by simp

lemma merged_data_row:
  assumes "r \<in> set (merged_data (consumption_hourly imp) (tariff_hourly tf))"
  shows "fst (snd (snd r)) =
           sum_skipna (map consumption_of
             (filter (\<lambda>q. hour (gmt_of q) = fst r \<and> household_of q = fst (snd r)) imp))
         \<and> snd (snd (snd r)) =
           (if fst r \<in> (\<lambda>q. hour (fst q)) ` set tf
            then mean_skipna (map snd (filter (\<lambda>q. hour (fst q) = fst r) tf)) else None)"
proof -
  from assms have "r \<in> set (merge_left (consumption_hourly imp) (tariff_hourly tf))"
    by (simp add: merged_data_def)
  then obtain l where l: "l \<in> set (consumption_hourly imp)"
    and r: "r = (fst l, fst (snd l), snd (snd l),
                 (case map_of (tariff_hourly tf) (fst l) of None \<Rightarrow> None | Some p \<Rightarrow> p))"
    by (auto simp: merge_left_unique [OF distinct_tariff_hourly])
  from l have "snd (snd l) = sum_skipna (map consumption_of
      (filter (\<lambda>q. hour (gmt_of q) = fst l \<and> household_of q = fst (snd l)) imp))"
    by (auto simp: consumption_hourly_def)
  with r show ?thesis by (simp add: map_of_tariff_hourly)
qed

lemma households_merged_output:
  "(\<lambda>r. fst (snd r)) ` set (merged_output tariff_data w) = household_of ` set (retained_readings w)"
proof -
  let ?imp = "consumption_imputed (retained_readings w)"
  let ?out = "merged_output tariff_data w"
  have "(\<lambda>r. fst (snd r)) ` set ?out = snd ` (\<lambda>r. (fst r, fst (snd r))) ` set ?out"
    by (simp add: image_image)
  also have "\<dots> = snd ` (\<lambda>r. (hour (gmt_of r), household_of r)) ` set ?imp"
    by (simp only: merged_output_def merged_data_keys_set)
  also have "\<dots> = household_of ` set ?imp"
    by (simp add: image_image)
  also have "\<dots> = snd ` set (map (\<lambda>r. (gmt_of r, household_of r)) ?imp)"
    by (simp add: image_image)
  also have "\<dots> = snd ` set (map (\<lambda>r. (gmt_of r, household_of r)) (retained_readings w))"
    by (simp only: consumption_imputed_keys)
  also have "\<dots> = household_of ` set (retained_readings w)"
    by (simp add: image_image)
  finally show ?thesis .
qed

subsection \<open>Claims about the consumption and tariff pipeline\<close>

text \<open>
  C9. Imputation leaves the sequence of (timestamp, household) keys as it was, and a row
  whose consumption was present before imputation is the same row after it.
\<close>
theorem imputation_frame:
  "map (\<lambda>r. (gmt_of r, household_of r)) (consumption_imputed m) =
     map (\<lambda>r. (gmt_of r, household_of r)) m
   \<and> list_all2 (\<lambda>r r'. consumption_of r \<noteq> None \<longrightarrow> r' = r) m (consumption_imputed m)"
proof -
  have keys: "map (\<lambda>r. (gmt_of r, household_of r)) (consumption_imputed m) =
      map (\<lambda>r. (gmt_of r, household_of r)) m"
    by (rule consumption_imputed_keys)
  have len: "length (consumption_imputed m) = length m"
    using consumption_imputed_keeps [of m] by (simp add: list_all2_lengthD)
  have "consumption_imputed m ! i = m ! i" if "i < length m" "consumption_of (m ! i) \<noteq> None" for i
  proof -
    from keys have "map (\<lambda>r. (gmt_of r, household_of r)) (consumption_imputed m) ! i =
        map (\<lambda>r. (gmt_of r, household_of r)) m ! i" by simp
    with that len have k: "gmt_of (consumption_imputed m ! i) = gmt_of (m ! i)"
        "household_of (consumption_imputed m ! i) = household_of (m ! i)"
      by simp_all
    from list_all2_nthD [OF consumption_imputed_keeps that(1)] that(2)
    have "consumption_of (consumption_imputed m ! i) = consumption_of (m ! i)" by blast
    with k show ?thesis by (simp add: prod_eq_iff)
  qed
  with len have "list_all2 (\<lambda>r r'. consumption_of r \<noteq> None \<longrightarrow> r' = r) m (consumption_imputed m)"
    by (simp add: list_all2_conv_all_nth del: not_None_eq)
  with keys show ?thesis by blast
qed

theorem imputation_frame_witness:
  "consumption_imputed
     [(0, ''A'', Some 1), (1800, ''A'', None), (3600, ''A'', Some 3),
      (0, ''B'', None), (1800, ''B'', Some 5), (3600, ''B'', None)] =
     [(0, ''A'', Some 1), (1800, ''A'', Some 2), (3600, ''A'', Some 3),
      (0, ''B'', Some 5), (1800, ''B'', Some 5), (3600, ''B'', Some 5)]
   \<and> list_all2 (\<lambda>r r'. consumption_of r \<noteq> None \<longrightarrow> r' = r)
     [(0, ''A'', Some 1), (1800, ''A'', None), (3600, ''A'', Some 3),
      (0, ''B'', None), (1800, ''B'', Some 5), (3600, ''B'', None)]
     (consumption_imputed
       [(0, ''A'', Some 1), (1800, ''A'', None), (3600, ''A'', Some 3),
        (0, ''B'', None), (1800, ''B'', Some 5), (3600, ''B'', None)])"
proof -
  have "consumption_imputed
     [(0, ''A'', Some 1), (1800, ''A'', None), (3600, ''A'', Some 3),
      (0, ''B'', None), (1800, ''B'', Some 5), (3600, ''B'', None)] =
     [(0, ''A'', Some 1), (1800, ''A'', Some 2), (3600, ''A'', Some 3),
      (0, ''B'', Some 5), (1800, ''B'', Some 5), (3600, ''B'', Some 5)]"
    by code_simp
  with imputation_frame
    [of "[(0, ''A'', Some 1), (1800, ''A'', None), (3600, ''A'', Some 3),
          (0, ''B'', None), (1800, ''B'', Some 5), (3600, ''B'', None)]"]
  show ?thesis by blast
qed

lemma dropna_present: "None \<notin> set vs \<Longrightarrow> map Some (dropna vs) = vs"
  by (induction vs rule: dropna.induct) auto

lemma tariff_hourly_hours: "fst ` set (tariff_hourly tf) = (\<lambda>q. hour (fst q)) ` set tf"
proof -
  have "fst ` set (tariff_hourly tf) = set (map fst (tariff_hourly tf))" by simp
  also have "\<dots> = (\<lambda>q. hour (fst q)) ` set tf" by (simp only: tariff_hourly_keys) simp
  finally show ?thesis .
qed

subsection \<open>Claims about missingness, imputation and hourly sums\<close>

lemma hour_bucket:
  "hour t = k \<longleftrightarrow> 3600 dvd k \<and> k \<le> t + 1800 \<and> t + 1800 < k + 3600"
proof
  assume "hour t = k"
  then have k: "k = 3600 * ((t + 1800) div 3600)" by (simp add: hour_def)
  have "t + 1800 = 3600 * ((t + 1800) div 3600) + (t + 1800) mod 3600" by simp
  moreover have "0 \<le> (t + 1800) mod 3600" "(t + 1800) mod 3600 < 3600" by simp_all
  ultimately show "3600 dvd k \<and> k \<le> t + 1800 \<and> t + 1800 < k + 3600"
    unfolding k by (intro conjI dvd_triv_left) linarith+
next
  assume a: "3600 dvd k \<and> k \<le> t + 1800 \<and> t + 1800 < k + 3600"
  then obtain q where q: "k = 3600 * q" by (auto elim: dvdE)
  with a have "t + 1800 = 3600 * q + (t + 1800 - k)" "0 \<le> t + 1800 - k" "t + 1800 - k < 3600"
    by simp_all
  then have "(t + 1800) div 3600 = q"
    by (rule int_div_pos_eq)
  with q show "hour t = k" by (simp add: hour_def)
qed

lemma filter_household_column:
  "filter (\<lambda>r. household_of r = h) (map (\<lambda>r. (fst r, a, snd r a)) rows) =
     (if a = h then map (\<lambda>r. (fst r, h, snd r h)) rows else [])"
  by (induction rows) auto

lemma size_melted_rows:
  "groupby_size (concat (map (\<lambda>h'. map (\<lambda>r. (fst r, h', snd r h')) rows) hs)) h =
     count_list hs h * length rows"
  unfolding groupby_size_def
  by (induction hs) (simp_all add: filter_household_column)

lemma missing_household_column:
  "length (filter (\<lambda>r. household_of r = h)
     (filter (\<lambda>r. consumption_of r = None) (map (\<lambda>r. (fst r, a, snd r a)) rows))) =
     (if a = h then length (filter (\<lambda>r. snd r h = None) rows) else 0)"
  by (induction rows) auto

lemma missing_melted_rows:
  "missing_values (concat (map (\<lambda>h'. map (\<lambda>r. (fst r, h', snd r h')) rows) hs)) h =
     count_list hs h * length (filter (\<lambda>r. snd r h = None) rows)"
  unfolding missing_values_def groupby_size_def
  by (induction hs) (simp_all add: missing_household_column [simplified] comp_def)

lemma percentage_missing_melted:
  assumes "h \<in> set (household_columns w)" and "wide_rows w \<noteq> []"
  shows "percentage_missing (consumption_melted w) h =
     Some (real (length (filter (\<lambda>r. snd r h = None) (wide_rows w))) /
           real (length (wide_rows w)) * 100)"
proof -
  from assms(1) have k: "0 < count_list (household_columns w) h"
    using count_list_0_iff [of "household_columns w" h] by simp
  from assms(2) have n: "0 < length (wide_rows w)" by simp
  show ?thesis
    using k n
    by (simp add: percentage_missing_def consumption_melted_def size_melted_rows
        missing_melted_rows)
qed

text \<open>
  C3. For every household column of the filtered 2013 consumption table (the table having
  at least one row), the missingness percentage is 100 times the number of null cells of
  the column over the number of rows. When it exceeds 5, that is when 100 times the nulls
  exceed 5 times the rows, the household has no row among the retained readings and none
  in the merged output; when it is at most 5, all rows of the household are retained and
  the household occurs in the merged output.
\<close>
theorem missingness_filter:
  assumes "h \<in> set (household_columns w)"
    and "wide_rows (consumption_data_filtered w) \<noteq> []"
  shows "percentage_missing (consumption_melted (consumption_data_filtered w)) h =
       Some (real (length (filter (\<lambda>r. snd r h = None) (wide_rows (consumption_data_filtered w)))) /
             real (length (wide_rows (consumption_data_filtered w))) * 100)
     \<and> (5 * length (wide_rows (consumption_data_filtered w)) <
          100 * length (filter (\<lambda>r. snd r h = None) (wide_rows (consumption_data_filtered w))) \<longrightarrow>
          h \<notin> household_of ` set (retained_readings w)
          \<and> h \<notin> (\<lambda>r. fst (snd r)) ` set (merged_output tariff_data w))
     \<and> (100 * length (filter (\<lambda>r. snd r h = None) (wide_rows (consumption_data_filtered w))) \<le>
          5 * length (wide_rows (consumption_data_filtered w)) \<longrightarrow>
          filter (\<lambda>r. household_of r = h) (retained_readings w) =
            filter (\<lambda>r. household_of r = h) (consumption_melted (consumption_data_filtered w))
          \<and> h \<in> (\<lambda>r. fst (snd r)) ` set (merged_output tariff_data w))"
proof -
  let ?w = "consumption_data_filtered w"
  let ?m = "consumption_melted ?w"
  let ?nulls = "length (filter (\<lambda>r. snd r h = None) (wide_rows ?w))"
  let ?rows = "length (wide_rows ?w)"
  let ?p = "real ?nulls / real ?rows * 100"
  have cols: "household_columns ?w = household_columns w"
    by (simp add: consumption_data_filtered_def)
  from assms have occurs: "h \<in> household_of ` set ?m"
    by (simp add: set_household_melted cols)
  from assms have p: "percentage_missing ?m h = Some ?p"
    by (intro percentage_missing_melted) (simp_all add: cols)
  from assms(2) have pos: "0 < real ?rows" by simp
  have "5 < ?p \<longleftrightarrow> real (5 * ?rows) < real (100 * ?nulls)"
    using pos by (simp add: field_simps)
  then have over: "5 < ?p \<longleftrightarrow> 5 * ?rows < 100 * ?nulls"
    by (simp only: of_nat_less_iff)
  have removed: "h \<in> set (households_to_remove ?m) \<longleftrightarrow> 5 * ?rows < 100 * ?nulls"
    using occurs p over by (simp add: set_households_to_remove)
  have absent: "h \<notin> household_of ` set (retained_readings w)" if "5 * ?rows < 100 * ?nulls"
    using that removed by (auto simp: retained_readings_def consumption_melted_filtered_def)
  have kept: "filter (\<lambda>r. household_of r = h) (retained_readings w) =
                filter (\<lambda>r. household_of r = h) ?m" if "100 * ?nulls \<le> 5 * ?rows"
  proof -
    from that removed have "h \<notin> set (households_to_remove ?m)" by simp
    then show ?thesis
      by (auto simp: retained_readings_def consumption_melted_filtered_def intro: filter_cong)
  qed
  have present: "h \<in> household_of ` set (retained_readings w)" if "100 * ?nulls \<le> 5 * ?rows"
  proof -
    from occurs have "filter (\<lambda>r. household_of r = h) ?m \<noteq> []"
      by (auto simp: filter_empty_conv)
    with kept [OF that] have "filter (\<lambda>r. household_of r = h) (retained_readings w) \<noteq> []"
      by simp
    then show ?thesis by (auto simp: filter_empty_conv)
  qed
  from p absent kept present show ?thesis
    by (simp add: households_merged_output)
qed

theorem missingness_filter_witness:
  "''MAC001'' \<in> set (household_columns
      \<lparr>household_columns = [''MAC001'', ''MAC002''],
       wide_rows = map (\<lambda>i. (1800 * (int i + 1),
           \<lambda>h. if h = ''MAC001'' \<and> i = 3 then None
               else if h = ''MAC002'' \<and> i < 2 then None else Some 1)) [0..<20]\<rparr>)
   \<and> wide_rows (consumption_data_filtered
      \<lparr>household_columns = [''MAC001'', ''MAC002''],
       wide_rows = map (\<lambda>i. (1800 * (int i + 1),
           \<lambda>h. if h = ''MAC001'' \<and> i = 3 then None
               else if h = ''MAC002'' \<and> i < 2 then None else Some 1)) [0..<20]\<rparr>) \<noteq> []
   \<and> length (wide_rows (consumption_data_filtered
      \<lparr>household_columns = [''MAC001'', ''MAC002''],
       wide_rows = map (\<lambda>i. (1800 * (int i + 1),
           \<lambda>h. if h = ''MAC001'' \<and> i = 3 then None
               else if h = ''MAC002'' \<and> i < 2 then None else Some 1)) [0..<20]\<rparr>)) = 20
   \<and> length (filter (\<lambda>r. snd r ''MAC001'' = None) (wide_rows (consumption_data_filtered
      \<lparr>household_columns = [''MAC001'', ''MAC002''],
       wide_rows = map (\<lambda>i. (1800 * (int i + 1),
           \<lambda>h. if h = ''MAC001'' \<and> i = 3 then None
               else if h = ''MAC002'' \<and> i < 2 then None else Some 1)) [0..<20]\<rparr>))) = 1
   \<and> length (filter (\<lambda>r. snd r ''MAC002'' = None) (wide_rows (consumption_data_filtered
      \<lparr>household_columns = [''MAC001'', ''MAC002''],
       wide_rows = map (\<lambda>i. (1800 * (int i + 1),
           \<lambda>h. if h = ''MAC001'' \<and> i = 3 then None
               else if h = ''MAC002'' \<and> i < 2 then None else Some 1)) [0..<20]\<rparr>))) = 2
   \<and> percentage_missing (consumption_melted (consumption_data_filtered
      \<lparr>household_columns = [''MAC001'', ''MAC002''],
       wide_rows = map (\<lambda>i. (1800 * (int i + 1),
           \<lambda>h. if h = ''MAC001'' \<and> i = 3 then None
               else if h = ''MAC002'' \<and> i < 2 then None else Some 1)) [0..<20]\<rparr>)) ''MAC001'' = Some 5
   \<and> ''MAC001'' \<in> (\<lambda>r. fst (snd r)) ` set (merged_output []
      \<lparr>household_columns = [''MAC001'', ''MAC002''],
       wide_rows = map (\<lambda>i. (1800 * (int i + 1),
           \<lambda>h. if h = ''MAC001'' \<and> i = 3 then None
               else if h = ''MAC002'' \<and> i < 2 then None else Some 1)) [0..<20]\<rparr>)
   \<and> ''MAC002'' \<notin> (\<lambda>r. fst (snd r)) ` set (merged_output []
      \<lparr>household_columns = [''MAC001'', ''MAC002''],
       wide_rows = map (\<lambda>i. (1800 * (int i + 1),
           \<lambda>h. if h = ''MAC001'' \<and> i = 3 then None
               else if h = ''MAC002'' \<and> i < 2 then None else Some 1)) [0..<20]\<rparr>)"
proof -
  let ?w = "\<lparr>household_columns = [''MAC001'', ''MAC002''],
       wide_rows = map (\<lambda>i. (1800 * (int i + 1),
           \<lambda>h. if h = ''MAC001'' \<and> i = 3 then None
               else if h = ''MAC002'' \<and> i < 2 then None else Some 1)) [0..<20]\<rparr>"
  have c1: "''MAC001'' \<in> set (household_columns ?w)" and c2: "''MAC002'' \<in> set (household_columns ?w)"
    by simp_all
  have rows: "length (wide_rows (consumption_data_filtered ?w)) = 20"
    by code_simp
  then have ne: "wide_rows (consumption_data_filtered ?w) \<noteq> []"
    by auto
  have n1: "length (filter (\<lambda>r. snd r ''MAC001'' = None) (wide_rows (consumption_data_filtered ?w))) = 1"
    by code_simp
  have n2: "length (filter (\<lambda>r. snd r ''MAC002'' = None) (wide_rows (consumption_data_filtered ?w))) = 2"
    by code_simp
  from missingness_filter [OF c1 ne, of "[]"]
  have p1: "percentage_missing (consumption_melted (consumption_data_filtered ?w)) ''MAC001'' = Some 5"
    and in1: "''MAC001'' \<in> (\<lambda>r. fst (snd r)) ` set (merged_output [] ?w)"
    unfolding rows n1 by simp_all
  from missingness_filter [OF c2 ne, of "[]"]
  have out2: "''MAC002'' \<notin> (\<lambda>r. fst (snd r)) ` set (merged_output [] ?w)"
    unfolding rows n2 by simp
  from c1 ne rows n1 n2 p1 in1 out2 show ?thesis
    by (intro conjI)
qed

lemma hourly_bucket_sum:
  assumes full: "None \<notin> consumption_of ` set imp"
    and r: "r \<in> set (consumption_hourly imp)"
  shows "3600 dvd fst r \<and>
     (\<exists>xs. xs \<noteq> [] \<and>
        map consumption_of
          (filter (\<lambda>q. fst r \<le> gmt_of q + 1800 \<and> gmt_of q + 1800 < fst r + 3600 \<and>
                       household_of q = fst (snd r)) imp) = map Some xs \<and>
        snd (snd r) = sum_list xs)"
proof -
  let ?old = "\<lambda>q. hour (gmt_of q) = fst r \<and> household_of q = fst (snd r)"
  let ?new = "\<lambda>q. fst r \<le> gmt_of q + 1800 \<and> gmt_of q + 1800 < fst r + 3600 \<and>
                 household_of q = fst (snd r)"
  from r have "(fst r, fst (snd r)) \<in> set (map (\<lambda>r. (fst r, fst (snd r))) (consumption_hourly imp))"
    unfolding set_map by (rule imageI)
  then have "(fst r, fst (snd r)) \<in> (\<lambda>q. (hour (gmt_of q), household_of q)) ` set imp"
    by (simp only: consumption_hourly_keys) simp
  then obtain q0 where q0: "q0 \<in> set imp" "hour (gmt_of q0) = fst r" "household_of q0 = fst (snd r)"
    by auto
  from q0(2) have dvd: "3600 dvd fst r"
    by (simp add: hour_bucket)
  have "?new q = ?old q" for q
    using dvd hour_bucket [of "gmt_of q" "fst r"] by blast
  then have same: "filter ?new imp = filter ?old imp"
    by (simp only:)
  let ?vs = "map consumption_of (filter ?old imp)"
  from full have "None \<notin> set ?vs" by auto
  then have vs: "?vs = map Some (dropna ?vs)" by (rule dropna_present [symmetric])
  from q0 have "filter ?old imp \<noteq> []"
    by (auto simp: filter_empty_conv)
  then have "?vs \<noteq> []" by simp
  with vs have nonempty: "dropna ?vs \<noteq> []" by force
  from r have "snd (snd r) = sum_list (dropna ?vs)"
    by (auto simp: consumption_hourly_def sum_skipna_def)
  with vs nonempty dvd show ?thesis
    unfolding same by blast
qed

text \<open>
  C4. Every row of the hourly consumption table has a whole hour as its hour and carries
  the sum of the post-imputation readings of its household whose timestamp, moved on by
  30 minutes, lies in that hour (from the hour up to, not including, the next): the
  readings whose timestamp plus 30 minutes floors to it. Those readings are all present,
  and there is at least one. The (hour, household) pairs of the table are those of the
  imputed readings, each once. Readings 0.2 at 2013-06-01 00:30 and 0.3 at 2013-06-01
  01:00 of one household aggregate to 0.5 at hour 2013-06-01 01:00.
\<close>
theorem hourly_consumption_sum:
  "(\<forall>r \<in> set (consumption_hourly (consumption_imputed (retained_readings w))).
      3600 dvd fst r \<and>
      (\<exists>xs. xs \<noteq> [] \<and>
         map consumption_of
           (filter (\<lambda>q. fst r \<le> gmt_of q + 1800 \<and> gmt_of q + 1800 < fst r + 3600 \<and>
                        household_of q = fst (snd r))
              (consumption_imputed (retained_readings w))) = map Some xs \<and>
         snd (snd r) = sum_list xs))
   \<and> (\<lambda>r. (fst r, fst (snd r))) ` set (consumption_hourly (consumption_imputed (retained_readings w))) =
       (\<lambda>q. (3600 * ((gmt_of q + 1800) div 3600), household_of q)) `
         set (consumption_imputed (retained_readings w))
   \<and> distinct (map (\<lambda>r. (fst r, fst (snd r)))
       (consumption_hourly (consumption_imputed (retained_readings w))))
   \<and> consumption_hourly (consumption_imputed (retained_readings
        \<lparr>household_columns = [''MAC001''],
         wide_rows = [(13048200, \<lambda>h. Some 0.2), (13050000, \<lambda>h. Some 0.3)]\<rparr>)) =
       [(13050000, ''MAC001'', 0.5)]"
proof -
  let ?imp = "consumption_imputed (retained_readings w)"
  have full: "None \<notin> consumption_of ` set ?imp"
    unfolding retained_readings_def by (rule retained_imputed_full)
  have sums: "\<forall>r \<in> set (consumption_hourly ?imp).
      3600 dvd fst r \<and>
      (\<exists>xs. xs \<noteq> [] \<and>
         map consumption_of
           (filter (\<lambda>q. fst r \<le> gmt_of q + 1800 \<and> gmt_of q + 1800 < fst r + 3600 \<and>
                        household_of q = fst (snd r)) ?imp) = map Some xs \<and>
         snd (snd r) = sum_list xs)"
    using hourly_bucket_sum [OF full] by blast
  have "(\<lambda>r. (fst r, fst (snd r))) ` set (consumption_hourly ?imp) =
        set (map (\<lambda>r. (fst r, fst (snd r))) (consumption_hourly ?imp))" by simp
  also have "\<dots> = (\<lambda>q. (hour (gmt_of q), household_of q)) ` set ?imp"
    by (simp only: consumption_hourly_keys) simp
  also have "\<dots> = (\<lambda>q. (3600 * ((gmt_of q + 1800) div 3600), household_of q)) ` set ?imp"
    by (simp add: hour_def mult.commute)
  finally have keys: "(\<lambda>r. (fst r, fst (snd r))) ` set (consumption_hourly ?imp) =
       (\<lambda>q. (3600 * ((gmt_of q + 1800) div 3600), household_of q)) ` set ?imp" .
  have once: "distinct (map (\<lambda>r. (fst r, fst (snd r))) (consumption_hourly ?imp))"
    by (simp only: consumption_hourly_keys) simp
  have scenario: "consumption_hourly (consumption_imputed (retained_readings
        \<lparr>household_columns = [''MAC001''],
         wide_rows = [(13048200, \<lambda>h. Some 0.2), (13050000, \<lambda>h. Some 0.3)]\<rparr>)) =
       [(13050000, ''MAC001'', 0.5)]"
    by code_simp
  from sums keys once scenario show ?thesis
    by (intro conjI)
qed

theorem hourly_consumption_sum_witness:
  "consumption_hourly (consumption_imputed (retained_readings
        \<lparr>household_columns = [''MAC001''],
         wide_rows = [(13044599, \<lambda>h. Some 0.1), (13044600, \<lambda>h. Some 0.2),
                      (13048199, \<lambda>h. Some 0.3), (13048200, \<lambda>h. Some 0.2),
                      (13050000, \<lambda>h. Some 0.3), (13051799, \<lambda>h. Some 0.4),
                      (13051800, \<lambda>h. Some 0.5)]\<rparr>)) =
     [(13042800, ''MAC001'', 0.1), (13046400, ''MAC001'', 0.5),
      (13050000, ''MAC001'', 0.9), (13053600, ''MAC001'', 0.5)]
   \<and> (\<lambda>r. (fst r, fst (snd r))) ` set (consumption_hourly (consumption_imputed (retained_readings
        \<lparr>household_columns = [''MAC001''],
         wide_rows = [(13044599, \<lambda>h. Some 0.1), (13044600, \<lambda>h. Some 0.2),
                      (13048199, \<lambda>h. Some 0.3), (13048200, \<lambda>h. Some 0.2),
                      (13050000, \<lambda>h. Some 0.3), (13051799, \<lambda>h. Some 0.4),
                      (13051800, \<lambda>h. Some 0.5)]\<rparr>))) =
       (\<lambda>q. (3600 * ((gmt_of q + 1800) div 3600), household_of q)) `
         set (consumption_imputed (retained_readings
        \<lparr>household_columns = [''MAC001''],
         wide_rows = [(13044599, \<lambda>h. Some 0.1), (13044600, \<lambda>h. Some 0.2),
                      (13048199, \<lambda>h. Some 0.3), (13048200, \<lambda>h. Some 0.2),
                      (13050000, \<lambda>h. Some 0.3), (13051799, \<lambda>h. Some 0.4),
                      (13051800, \<lambda>h. Some 0.5)]\<rparr>))"
proof -
  have out: "consumption_hourly (consumption_imputed (retained_readings
        \<lparr>household_columns = [''MAC001''],
         wide_rows = [(13044599, \<lambda>h. Some 0.1), (13044600, \<lambda>h. Some 0.2),
                      (13048199, \<lambda>h. Some 0.3), (13048200, \<lambda>h. Some 0.2),
                      (13050000, \<lambda>h. Some 0.3), (13051799, \<lambda>h. Some 0.4),
                      (13051800, \<lambda>h. Some 0.5)]\<rparr>)) =
     [(13042800, ''MAC001'', 0.1), (13046400, ''MAC001'', 0.5),
      (13050000, ''MAC001'', 0.9), (13053600, ''MAC001'', 0.5)]"
    by code_simp
  from hourly_consumption_sum [of "\<lparr>household_columns = [''MAC001''],
         wide_rows = [(13044599, \<lambda>h. Some 0.1), (13044600, \<lambda>h. Some 0.2),
                      (13048199, \<lambda>h. Some 0.3), (13048200, \<lambda>h. Some 0.2),
                      (13050000, \<lambda>h. Some 0.3), (13051799, \<lambda>h. Some 0.4),
                      (13051800, \<lambda>h. Some 0.5)]\<rparr>"] out
  show ?thesis
    by (intro conjI) blast+
qed




text \<open>
  C5. The merged output, projected to (hour, household, consumption), holds exactly the
  rows of the hourly consumption table, each once, and no (hour, household) pair twice.
  The tariff of a row is the mean of the prices of the tariff readings of its hour when
  the hour occurs in the hourly tariff table, and null otherwise; the mean of present
  prices is their sum divided by their number.
\<close>
theorem left_join_tariff:
  "mset (map (\<lambda>r. (fst r, fst (snd r), fst (snd (snd r))))
      (merged_data (consumption_hourly imp) (tariff_hourly tf))) = mset (consumption_hourly imp)
   \<and> distinct (map (\<lambda>r. (fst r, fst (snd r)))
      (merged_data (consumption_hourly imp) (tariff_hourly tf)))
   \<and> (\<forall>r \<in> set (merged_data (consumption_hourly imp) (tariff_hourly tf)).
        snd (snd (snd r)) =
          (if fst r \<in> fst ` set (tariff_hourly tf)
           then mean_skipna (map snd (filter (\<lambda>q. hour (fst q) = fst r) tf))
           else None))
   \<and> (\<forall>xs. xs \<noteq> [] \<longrightarrow> mean_skipna (map Some xs) = Some (sum_list xs / real (length xs)))"
  using merged_data_rows [of "consumption_hourly imp" tf] merged_data_keys_distinct [of imp tf]
    merged_data_row [of _ imp tf] mean_skipna_present
  by (simp add: tariff_hourly_hours)

theorem left_join_tariff_witness:
  "merged_data
     (consumption_hourly [(1800, ''A'', Some 1), (3600, ''A'', Some 2), (7200, ''A'', Some 4)])
     (tariff_hourly [(1800, Some 10), (3600, Some 20)]) =
     [(3600, ''A'', 3, Some 15), (7200, ''A'', 4, None)]
   \<and> fst ` set (tariff_hourly [(1800, Some 10), (3600, Some 20)]) = {3600}
   \<and> mean_skipna (map snd (filter (\<lambda>q. hour (fst q) = 3600) [(1800, Some 10), (3600, Some 20)])) =
       Some 15"
proof -
  have out: "merged_data
     (consumption_hourly [(1800, ''A'', Some 1), (3600, ''A'', Some 2), (7200, ''A'', Some 4)])
     (tariff_hourly [(1800, Some 10), (3600, Some 20)]) =
     [(3600, ''A'', 3, Some 15), (7200, ''A'', 4, None)]"
    by code_simp
  have hours: "fst ` set (tariff_hourly [(1800, Some 10), (3600, Some 20)]) = {3600}"
    by (simp add: tariff_hourly_hours hour_def)
  from left_join_tariff
    [of "[(1800, ''A'', Some 1), (3600, ''A'', Some 2), (7200, ''A'', Some 4)]"
        "[(1800, Some 10), (3600, Some 20)]", THEN conjunct2, THEN conjunct2, THEN conjunct1]
  have "\<forall>r \<in> set [(3600, ''A'', 3::real, Some (15::real)), (7200, ''A'', 4, None)].
          snd (snd (snd r)) =
            (if fst r \<in> {3600}
             then mean_skipna (map snd (filter (\<lambda>q. hour (fst q) = fst r)
                    [(1800, Some 10), (3600, Some 20)]))
             else None)"
    unfolding out hours .
  then have "mean_skipna (map snd (filter (\<lambda>q. hour (fst q) = 3600)
      [(1800, Some 10), (3600, Some 20)])) = Some 15"
    by simp
  with out hours show ?thesis by blast
qed

section \<open>Properties of the weather pipeline\<close>

subsection \<open>Duplicate removal\<close>

lemma find_drop_duplicated:
  "find (\<lambda>r. fst r = t) (drop_duplicated seen rs) =
     (if t \<in> set seen then None else find (\<lambda>r. fst r = t) rs)"
proof (induction rs arbitrary: seen)
  case Nil
  then show ?case by simp
next
  case (Cons r rs)
  then show ?case by (cases "fst r = t") auto
qed

lemma keys_drop_duplicated:
  "fst ` set (drop_duplicated seen rs) = fst ` set rs - set seen"
  by (induction rs arbitrary: seen) auto

lemma set_drop_duplicated: "set (drop_duplicated seen rs) \<subseteq> set rs"
  by (induction rs arbitrary: seen) auto

lemma distinct_drop_duplicated: "distinct (map fst (drop_duplicated seen rs))"
  by (induction rs arbitrary: seen) (auto simp: keys_drop_duplicated)

lemma sorted_drop_duplicated:
  "sorted (map fst rs) \<Longrightarrow> sorted (map fst (drop_duplicated seen rs))"
proof (induction rs arbitrary: seen)
  case Nil
  then show ?case by simp
next
  case (Cons r rs)
  then show ?case using set_drop_duplicated [of "fst r # seen" rs] by auto
qed

lemma strict_sorted_keep_first:
  "sorted (map fst rs) \<Longrightarrow> sorted_wrt (<) (map fst (keep_first rs))"
  by (simp add: strict_sorted_iff keep_first_def sorted_drop_duplicated distinct_drop_duplicated)

lemma find_filter_head:
  "find P xs = (case filter P xs of [] \<Rightarrow> None | x # ys \<Rightarrow> Some x)"
  by (induction xs) auto

text \<open>
  C2, as the code has it. For every table \<^verbatim>\<open>sort_index\<close> may return for the
  concatenated sources, duplicate removal leaves one row per timestamp of the sources, and the row
  kept for a timestamp is the first row with that timestamp in the sorted table. It is
  the earliest source row with that timestamp when the sort left the rows of that
  timestamp in their concatenation order.
\<close>
theorem first_occurrence_kept:
  assumes "sort_index_result df sorted_df"
  shows "distinct (map fst (keep_first sorted_df))
     \<and> fst ` set (keep_first sorted_df) = fst ` set df
     \<and> find (\<lambda>r. fst r = t) (keep_first sorted_df) = find (\<lambda>r. fst r = t) sorted_df
     \<and> (filter (\<lambda>r. fst r = t) sorted_df = filter (\<lambda>r. fst r = t) df \<longrightarrow>
          find (\<lambda>r. fst r = t) (keep_first sorted_df) = find (\<lambda>r. fst r = t) df)"
proof -
  from assms have "set sorted_df = set df"
    by (auto simp: sort_index_result_def dest: mset_eq_setD)
  then have keys: "fst ` set (keep_first sorted_df) = fst ` set df"
    by (simp add: keep_first_def keys_drop_duplicated)
  have first: "find (\<lambda>r. fst r = t) (keep_first sorted_df) = find (\<lambda>r. fst r = t) sorted_df"
    by (simp add: keep_first_def find_drop_duplicated)
  have "find (\<lambda>r. fst r = t) sorted_df = find (\<lambda>r. fst r = t) df"
    if "filter (\<lambda>r. fst r = t) sorted_df = filter (\<lambda>r. fst r = t) df"
    using that by (simp add: find_filter_head)
  with keys first show ?thesis
    by (simp add: keep_first_def distinct_drop_duplicated)
qed

theorem first_occurrence_kept_witness:
  "sort_index_result (concat
     [[(0::timestamp, measured 0), (3600, measured 1), (7200, measured 2), (10800, measured 3),
       (14400, measured 4), (18000, measured 5), (21600, measured 6), (25200, measured 7),
       (28800, measured 8), (32400, measured 9)],
      [(28800, measured 8.5), (32400, measured 9.5), (36000, measured 10.5), (39600, measured 11.5),
       (43200, measured 12.5), (46800, measured 13.5), (50400, measured 14.5), (54000, measured 15.5),
       (57600, measured 16.5), (61200, measured 17.5)]])
     [(0, measured 0), (3600, measured 1), (7200, measured 2), (10800, measured 3),
      (14400, measured 4), (18000, measured 5), (21600, measured 6), (25200, measured 7),
      (28800, measured 8), (28800, measured 8.5), (32400, measured 9.5), (32400, measured 9),
      (36000, measured 10.5), (39600, measured 11.5), (43200, measured 12.5), (46800, measured 13.5),
      (50400, measured 14.5), (54000, measured 15.5), (57600, measured 16.5), (61200, measured 17.5)]
   \<and> filter (\<lambda>r. fst r = 28800)
     [(0, measured 0), (3600, measured 1), (7200, measured 2), (10800, measured 3),
      (14400, measured 4), (18000, measured 5), (21600, measured 6), (25200, measured 7),
      (28800, measured 8), (28800, measured 8.5), (32400, measured 9.5), (32400, measured 9),
      (36000, measured 10.5), (39600, measured 11.5), (43200, measured 12.5), (46800, measured 13.5),
      (50400, measured 14.5), (54000, measured 15.5), (57600, measured 16.5), (61200, measured 17.5)] =
     filter (\<lambda>r. fst r = 28800) (concat
     [[(0::timestamp, measured 0), (3600, measured 1), (7200, measured 2), (10800, measured 3),
       (14400, measured 4), (18000, measured 5), (21600, measured 6), (25200, measured 7),
       (28800, measured 8), (32400, measured 9)],
      [(28800, measured 8.5), (32400, measured 9.5), (36000, measured 10.5), (39600, measured 11.5),
       (43200, measured 12.5), (46800, measured 13.5), (50400, measured 14.5), (54000, measured 15.5),
       (57600, measured 16.5), (61200, measured 17.5)]])
   \<and> find (\<lambda>r. fst r = 28800) (keep_first
     [(0, measured 0), (3600, measured 1), (7200, measured 2), (10800, measured 3),
      (14400, measured 4), (18000, measured 5), (21600, measured 6), (25200, measured 7),
      (28800, measured 8), (28800, measured 8.5), (32400, measured 9.5), (32400, measured 9),
      (36000, measured 10.5), (39600, measured 11.5), (43200, measured 12.5), (46800, measured 13.5),
      (50400, measured 14.5), (54000, measured 15.5), (57600, measured 16.5), (61200, measured 17.5)]) =
     find (\<lambda>r. fst r = 28800) (concat
     [[(0::timestamp, measured 0), (3600, measured 1), (7200, measured 2), (10800, measured 3),
       (14400, measured 4), (18000, measured 5), (21600, measured 6), (25200, measured 7),
       (28800, measured 8), (32400, measured 9)],
      [(28800, measured 8.5), (32400, measured 9.5), (36000, measured 10.5), (39600, measured 11.5),
       (43200, measured 12.5), (46800, measured 13.5), (50400, measured 14.5), (54000, measured 15.5),
       (57600, measured 16.5), (61200, measured 17.5)]])
   \<and> find (\<lambda>r. fst r = 28800) (concat
     [[(0::timestamp, measured 0), (3600, measured 1), (7200, measured 2), (10800, measured 3),
       (14400, measured 4), (18000, measured 5), (21600, measured 6), (25200, measured 7),
       (28800, measured 8), (32400, measured 9)],
      [(28800, measured 8.5), (32400, measured 9.5), (36000, measured 10.5), (39600, measured 11.5),
       (43200, measured 12.5), (46800, measured 13.5), (50400, measured 14.5), (54000, measured 15.5),
       (57600, measured 16.5), (61200, measured 17.5)]]) =
     Some (28800, measured 8)"
proof -
  have srt: "sort_index_result (concat
     [[(0::timestamp, measured 0), (3600, measured 1), (7200, measured 2), (10800, measured 3),
       (14400, measured 4), (18000, measured 5), (21600, measured 6), (25200, measured 7),
       (28800, measured 8), (32400, measured 9)],
      [(28800, measured 8.5), (32400, measured 9.5), (36000, measured 10.5), (39600, measured 11.5),
       (43200, measured 12.5), (46800, measured 13.5), (50400, measured 14.5), (54000, measured 15.5),
       (57600, measured 16.5), (61200, measured 17.5)]])
     [(0, measured 0), (3600, measured 1), (7200, measured 2), (10800, measured 3),
      (14400, measured 4), (18000, measured 5), (21600, measured 6), (25200, measured 7),
      (28800, measured 8), (28800, measured 8.5), (32400, measured 9.5), (32400, measured 9),
      (36000, measured 10.5), (39600, measured 11.5), (43200, measured 12.5), (46800, measured 13.5),
      (50400, measured 14.5), (54000, measured 15.5), (57600, measured 16.5), (61200, measured 17.5)]"
    by code_simp
  have ties: "filter (\<lambda>r. fst r = 28800)
     [(0, measured 0), (3600, measured 1), (7200, measured 2), (10800, measured 3),
      (14400, measured 4), (18000, measured 5), (21600, measured 6), (25200, measured 7),
      (28800, measured 8), (28800, measured 8.5), (32400, measured 9.5), (32400, measured 9),
      (36000, measured 10.5), (39600, measured 11.5), (43200, measured 12.5), (46800, measured 13.5),
      (50400, measured 14.5), (54000, measured 15.5), (57600, measured 16.5), (61200, measured 17.5)] =
     filter (\<lambda>r. fst r = 28800) (concat
     [[(0::timestamp, measured 0), (3600, measured 1), (7200, measured 2), (10800, measured 3),
       (14400, measured 4), (18000, measured 5), (21600, measured 6), (25200, measured 7),
       (28800, measured 8), (32400, measured 9)],
      [(28800, measured 8.5), (32400, measured 9.5), (36000, measured 10.5), (39600, measured 11.5),
       (43200, measured 12.5), (46800, measured 13.5), (50400, measured 14.5), (54000, measured 15.5),
       (57600, measured 16.5), (61200, measured 17.5)]])"
    by code_simp
  have first: "find (\<lambda>r. fst r = 28800) (concat
     [[(0::timestamp, measured 0), (3600, measured 1), (7200, measured 2), (10800, measured 3),
       (14400, measured 4), (18000, measured 5), (21600, measured 6), (25200, measured 7),
       (28800, measured 8), (32400, measured 9)],
      [(28800, measured 8.5), (32400, measured 9.5), (36000, measured 10.5), (39600, measured 11.5),
       (43200, measured 12.5), (46800, measured 13.5), (50400, measured 14.5), (54000, measured 15.5),
       (57600, measured 16.5), (61200, measured 17.5)]]) =
     Some (28800, measured 8)"
    by code_simp
  from first_occurrence_kept [OF srt, of 28800] ties first srt show ?thesis by blast
qed

text \<open>
  C2 as stated fails on two sources in chronological order that overlap in two hours,
  hours 0 to 9 and hours 8 to 17 of a day. The index of their concatenation is not
  monotonic, so the default sort runs and partitions the 20 rows around the first
  source's row of hour 9, the middle one; the pivot comes to rest behind the second
  source's row of that hour. Duplicate removal then keeps the second source's row, while
  the earliest source row of hour 9 is the first source's. (For hour 8 the rows stay in
  concatenation order, as the witness above shows.)
\<close>
theorem first_in_source_order_counterexample:
  "sort_index (concat
     [[(0::timestamp, measured 0), (3600, measured 1), (7200, measured 2), (10800, measured 3),
       (14400, measured 4), (18000, measured 5), (21600, measured 6), (25200, measured 7),
       (28800, measured 8), (32400, measured 9)],
      [(28800, measured 8.5), (32400, measured 9.5), (36000, measured 10.5), (39600, measured 11.5),
       (43200, measured 12.5), (46800, measured 13.5), (50400, measured 14.5), (54000, measured 15.5),
       (57600, measured 16.5), (61200, measured 17.5)]]) =
   Some
     [(0, measured 0), (3600, measured 1), (7200, measured 2), (10800, measured 3),
      (14400, measured 4), (18000, measured 5), (21600, measured 6), (25200, measured 7),
      (28800, measured 8), (28800, measured 8.5), (32400, measured 9.5), (32400, measured 9),
      (36000, measured 10.5), (39600, measured 11.5), (43200, measured 12.5), (46800, measured 13.5),
      (50400, measured 14.5), (54000, measured 15.5), (57600, measured 16.5), (61200, measured 17.5)]
   \<and> sort_index_result (concat
     [[(0::timestamp, measured 0), (3600, measured 1), (7200, measured 2), (10800, measured 3),
       (14400, measured 4), (18000, measured 5), (21600, measured 6), (25200, measured 7),
       (28800, measured 8), (32400, measured 9)],
      [(28800, measured 8.5), (32400, measured 9.5), (36000, measured 10.5), (39600, measured 11.5),
       (43200, measured 12.5), (46800, measured 13.5), (50400, measured 14.5), (54000, measured 15.5),
       (57600, measured 16.5), (61200, measured 17.5)]])
     [(0, measured 0), (3600, measured 1), (7200, measured 2), (10800, measured 3),
      (14400, measured 4), (18000, measured 5), (21600, measured 6), (25200, measured 7),
      (28800, measured 8), (28800, measured 8.5), (32400, measured 9.5), (32400, measured 9),
      (36000, measured 10.5), (39600, measured 11.5), (43200, measured 12.5), (46800, measured 13.5),
      (50400, measured 14.5), (54000, measured 15.5), (57600, measured 16.5), (61200, measured 17.5)]
   \<and> find (\<lambda>r. fst r = 32400) (keep_first
     [(0, measured 0), (3600, measured 1), (7200, measured 2), (10800, measured 3),
      (14400, measured 4), (18000, measured 5), (21600, measured 6), (25200, measured 7),
      (28800, measured 8), (28800, measured 8.5), (32400, measured 9.5), (32400, measured 9),
      (36000, measured 10.5), (39600, measured 11.5), (43200, measured 12.5), (46800, measured 13.5),
      (50400, measured 14.5), (54000, measured 15.5), (57600, measured 16.5), (61200, measured 17.5)]) =
     Some (32400, measured 9.5)
   \<and> find (\<lambda>r. fst r = 32400) (concat
     [[(0::timestamp, measured 0), (3600, measured 1), (7200, measured 2), (10800, measured 3),
       (14400, measured 4), (18000, measured 5), (21600, measured 6), (25200, measured 7),
       (28800, measured 8), (32400, measured 9)],
      [(28800, measured 8.5), (32400, measured 9.5), (36000, measured 10.5), (39600, measured 11.5),
       (43200, measured 12.5), (46800, measured 13.5), (50400, measured 14.5), (54000, measured 15.5),
       (57600, measured 16.5), (61200, measured 17.5)]]) =
     Some (32400, measured 9)"
  by code_simp

subsection \<open>The gap handler\<close>

lemma time_diffs_successive:
  "time_diffs (map fst df) =
     map (\<lambda>pn. (fst (snd pn), fst (snd pn) - fst (fst pn))) (successive df)"
  by (induction df rule: induct_list012) (simp_all add: successive_def)

lemma successive_members:
  "(p, n) \<in> set (successive df) \<Longrightarrow> p \<in> set df \<and> n \<in> set df"
  unfolding successive_def
proof -
  assume "(p, n) \<in> set (zip df (tl df))"
  then have "p \<in> set df" and "n \<in> set (tl df)"
    by (auto dest: set_zip_leftD set_zip_rightD)
  then show "p \<in> set df \<and> n \<in> set df"
    by (cases df) auto
qed

lemma successive_in_sorted:
  assumes "sorted_wrt (<) (map fst df)" and "(p, n) \<in> set (successive df)"
  shows "fst p < fst n \<and> (\<forall>r \<in> set df. fst r \<le> fst p \<or> fst n \<le> fst r)"
  using assms
proof (induction df rule: induct_list012)
  case 1
  then show ?case by (simp add: successive_def)
next
  case (2 x)
  then show ?case by (simp add: successive_def)
next
  case (3 x y zs)
  show ?case
  proof (cases "(p, n) = (x, y)")
    case True
    with "3.prems"(1) show ?thesis by (auto simp: less_imp_le)
  next
    case False
    with "3.prems"(2) have mem: "(p, n) \<in> set (successive (y # zs))"
      by (auto simp: successive_def)
    from "3.prems"(1) have "sorted_wrt (<) (map fst (y # zs))" by simp
    from "3.IH"(2) [OF this mem] have ih: "fst p < fst n"
      "\<forall>r \<in> set (y # zs). fst r \<le> fst p \<or> fst n \<le> fst r" by simp_all
    from successive_members [OF mem] have "p \<in> set (y # zs)" by simp
    with "3.prems"(1) have "fst x < fst p" by auto
    with ih show ?thesis by (auto simp: less_imp_le)
  qed
qed

lemma successive_of_neighbours:
  assumes "sorted_wrt (<) (map fst df)" and "p \<in> set df" and "n \<in> set df"
    and "fst p < fst n" and "\<forall>r \<in> set df. fst r \<le> fst p \<or> fst n \<le> fst r"
  shows "(p, n) \<in> set (successive df)"
  using assms
proof (induction df rule: induct_list012)
  case 1
  then show ?case by simp
next
  case (2 x)
  then show ?case by auto
next
  case (3 x y zs)
  show ?case
  proof (cases "p = x")
    case True
    from "3.prems"(1) have xy: "fst x < fst y" by simp
    from "3.prems"(5) have "fst y \<le> fst p \<or> fst n \<le> fst y" by simp
    with True xy have ny: "fst n \<le> fst y" by simp
    from "3.prems"(3,4) True have "n \<in> set (y # zs)" by auto
    with "3.prems"(1) ny have "n = y" by auto
    with True show ?thesis by (simp add: successive_def)
  next
    case False
    with "3.prems"(2) have p: "p \<in> set (y # zs)" by simp
    with "3.prems"(1) have "fst x < fst p" by auto
    with "3.prems"(3,4) have n: "n \<in> set (y # zs)" by auto
    from "3.prems"(1) have "sorted_wrt (<) (map fst (y # zs))" by simp
    from "3.IH"(2) [OF this p n "3.prems"(4)] "3.prems"(5)
    have "(p, n) \<in> set (successive (y # zs))" by simp
    then show ?thesis by (simp add: successive_def)
  qed
qed

lemma loc_append:
  "map_of df t = Some ob \<Longrightarrow> loc (df @ extra) t = Inr ob"
  by (simp add: loc_def)

lemma fill_gaps_appends:
  assumes "\<And>pn. pn \<in> set ps \<Longrightarrow>
             map_of df (fst (fst pn)) = Some (snd (fst pn)) \<and>
             map_of df (fst (snd pn)) = Some (snd (snd pn))"
    and "\<And>pn. pn \<in> set ps \<Longrightarrow> two_hours_apart pn \<Longrightarrow>
             fst (fst pn) + 3600 \<notin> fst ` set df \<union> fst ` set extra"
    and "distinct (map (\<lambda>pn. fst (fst pn)) ps)"
  shows "fill_gaps (df @ extra)
           (filter (\<lambda>e. snd e \<noteq> 3600)
              (map (\<lambda>pn. (fst (snd pn), fst (snd pn) - fst (fst pn))) ps)) =
         Inr (df @ extra @ map interpolated_row (filter two_hours_apart ps))"
  using assms
proof (induction ps arbitrary: extra)
  case Nil
  then show ?case by simp
next
  case (Cons pn ps)
  have known: "\<And>q. q \<in> set ps \<Longrightarrow>
             map_of df (fst (fst q)) = Some (snd (fst q)) \<and>
             map_of df (fst (snd q)) = Some (snd (snd q))"
    using Cons.prems(1) by simp
  have dist: "distinct (map (\<lambda>pn. fst (fst pn)) ps)"
    using Cons.prems(3) by simp
  show ?case
  proof (cases "two_hours_apart pn")
    case False
    have fresh: "\<And>q. q \<in> set ps \<Longrightarrow> two_hours_apart q \<Longrightarrow>
             fst (fst q) + 3600 \<notin> fst ` set df \<union> fst ` set extra"
      using Cons.prems(2) by simp
    from False Cons.IH [OF known fresh dist] show ?thesis
      by (simp add: two_hours_apart_def)
  next
    case True
    then have diff: "fst (snd pn) - fst (fst pn) = 7200" by (simp add: two_hours_apart_def)
    then have prev: "fst (snd pn) - 7200 = fst (fst pn)" by simp
    from Cons.prems(1) [of pn]
    have lp: "loc (df @ extra) (fst (fst pn)) = Inr (snd (fst pn))"
      and ln: "loc (df @ extra) (fst (snd pn)) = Inr (snd (snd pn))"
      by (simp_all add: loc_append)
    from Cons.prems(2) [of pn] True
    have new: "fst (fst pn) + 3600 \<notin> fst ` set (df @ extra)" by (simp add: image_Un)
    then have upd: "set_loc (df @ extra) (fst (fst pn) + 3600) (combine_mean (snd (fst pn)) (snd (snd pn))) =
        df @ (extra @ [interpolated_row pn])"
      by (simp add: set_loc_def interpolated_row_def)
    have fresh: "\<And>q. q \<in> set ps \<Longrightarrow> two_hours_apart q \<Longrightarrow>
             fst (fst q) + 3600 \<notin> fst ` set df \<union> fst ` set (extra @ [interpolated_row pn])"
    proof -
      fix q assume q: "q \<in> set ps" "two_hours_apart q"
      with Cons.prems(2) [of q]
      have "fst (fst q) + 3600 \<notin> fst ` set df \<union> fst ` set extra" by simp
      moreover have "fst (fst q) \<noteq> fst (fst pn)"
      proof
        assume "fst (fst q) = fst (fst pn)"
        with q(1) have "fst (fst pn) \<in> (\<lambda>pn. fst (fst pn)) ` set ps" by (metis imageI)
        with Cons.prems(3) show False by simp
      qed
      ultimately show "fst (fst q) + 3600 \<notin> fst ` set df \<union> fst ` set (extra @ [interpolated_row pn])"
        by (simp add: interpolated_row_def)
    qed
    from Cons.IH [OF known fresh dist] True diff prev lp ln upd show ?thesis
      by simp
  qed
qed

lemma fill_gaps_sorted:
  assumes "sorted_wrt (<) (map fst df)"
  shows "fill_gaps df (unusual_entries df) =
           Inr (df @ map interpolated_row (filter two_hours_apart (successive df)))"
proof -
  from assms have dist: "distinct (map fst df)"
    by (simp add: strict_sorted_iff)
  have known: "map_of df (fst (fst pn)) = Some (snd (fst pn)) \<and>
               map_of df (fst (snd pn)) = Some (snd (snd pn))"
    if "pn \<in> set (successive df)" for pn
  proof -
    from that successive_members [of "fst pn" "snd pn" df]
    have "fst pn \<in> set df" "snd pn \<in> set df" by simp_all
    with dist show ?thesis
      by (simp add: map_of_is_SomeI [of df "fst (fst pn)" "snd (fst pn)"]
          map_of_is_SomeI [of df "fst (snd pn)" "snd (snd pn)"])
  qed
  have fresh: "fst (fst pn) + 3600 \<notin> fst ` set df \<union> fst ` set []"
    if "pn \<in> set (successive df)" "two_hours_apart pn" for pn
  proof -
    from that(1) have "(fst pn, snd pn) \<in> set (successive df)" by simp
    from successive_in_sorted [OF assms this]
    have "\<forall>r \<in> set df. fst r \<le> fst (fst pn) \<or> fst (snd pn) \<le> fst r" by simp
    moreover from that(2) have "fst (snd pn) = fst (fst pn) + 7200"
      by (simp add: two_hours_apart_def)
    ultimately show ?thesis by fastforce
  qed
  have "map (\<lambda>pn. fst (fst pn)) (successive df) = take (length (tl df)) (map fst df)"
    by (simp add: successive_def map_fst_zip_take take_map flip: map_map [unfolded comp_def])
  with dist have "distinct (map (\<lambda>pn. fst (fst pn)) (successive df))"
    by simp
  from fill_gaps_appends [of "successive df" df "[]", OF known fresh this]
  show ?thesis
    by (simp add: unusual_entries_def time_diffs_successive)
qed

lemma sorted_unique_rows:
  assumes "sorted (map fst xs)" and "distinct (map fst xs)"
    and "sorted (map fst ys)" and "mset ys = mset xs"
  shows "ys = xs"
proof -
  from assms(4) have sets: "set ys = set xs" by (rule mset_eq_setD)
  from assms(4) have "mset (map fst ys) = mset (map fst xs)" by simp
  with assms(2) have dist: "distinct (map fst ys)"
    using mset_eq_imp_distinct_iff by blast
  from sets have "set (map fst ys) = set (map fst xs)" by simp
  with assms(1-3) dist have keys: "map fst ys = map fst xs"
    by (intro sorted_distinct_set_unique)
  have "map_of ys = map_of xs"
    using sets dist assms(2) by (simp add: map_of_inject_set)
  then have "map snd ys = map snd xs"
    using keys dist assms(2)
    by (metis zip_map_fst_snd length_map map_of_zip_inject)
  with keys show ?thesis
    by (metis zip_map_fst_snd)
qed

subsection \<open>Claims about the weather pipeline\<close>

text \<open>
  C6. Let the table be the one left by duplicate removal. The loop of the gap handler
  does not raise, and a table \<open>out\<close> the handler ends with holds, for every pair of
  successive rows exactly two hours apart, the row at the hour in between whose five
  measurements are the cell means of the two rows; it holds the rows of the table and
  those synthesized rows and no other; and when no pair of successive rows is two hours
  apart, whatever the other deltas are, it is the table itself. The mean of two present
  cells \<open>a\<close> and \<open>b\<close> is \<open>(a + b) / 2\<close>.
\<close>
theorem gap_handler_interpolates:
  assumes "sort_index_result df sorted_df"
    and "weather_gap_handler (keep_first sorted_df) out"
  shows "(\<forall>pn \<in> set (successive (keep_first sorted_df)).
            two_hours_apart pn \<longrightarrow> interpolated_row pn \<in> set out)
     \<and> set out = set (keep_first sorted_df) \<union>
          interpolated_row ` {pn \<in> set (successive (keep_first sorted_df)). two_hours_apart pn}
     \<and> ((\<forall>pn \<in> set (successive (keep_first sorted_df)). \<not> two_hours_apart pn) \<longrightarrow>
          out = keep_first sorted_df)
     \<and> fill_gaps (keep_first sorted_df) (unusual_entries (keep_first sorted_df)) =
          Inr (keep_first sorted_df @
               map interpolated_row (filter two_hours_apart (successive (keep_first sorted_df))))
     \<and> (\<forall>p n. interpolated_row (p, n) =
          (fst p + 3600,
           \<lparr>solarradiation = mean_cell (solarradiation (snd p)) (solarradiation (snd n)),
            windspeed = mean_cell (windspeed (snd p)) (windspeed (snd n)),
            temp = mean_cell (temp (snd p)) (temp (snd n)),
            precip = mean_cell (precip (snd p)) (precip (snd n)),
            humidity = mean_cell (humidity (snd p)) (humidity (snd n))\<rparr>))
     \<and> (\<forall>a b. mean_cell (Some a) (Some b) = Some ((a + b) / 2))"
proof -
  let ?T = "keep_first sorted_df"
  let ?new = "map interpolated_row (filter two_hours_apart (successive ?T))"
  from assms(1) have "sorted (map fst sorted_df)"
    by (simp add: sort_index_result_def)
  then have strict: "sorted_wrt (<) (map fst ?T)"
    by (rule strict_sorted_keep_first)
  have loop: "fill_gaps ?T (unusual_entries ?T) = Inr (?T @ ?new)"
    by (rule fill_gaps_sorted [OF strict])
  with assms(2) have out: "sorted (map fst out)" "mset out = mset (?T @ ?new)"
    by (simp_all add: weather_gap_handler_def sort_index_result_def)
  from mset_eq_setD [OF out(2)] have sets: "set out = set ?T \<union> set ?new"
    by simp
  then have sets': "set out = set ?T \<union>
      interpolated_row ` {pn \<in> set (successive ?T). two_hours_apart pn}"
    by simp
  then have each: "\<forall>pn \<in> set (successive ?T). two_hours_apart pn \<longrightarrow> interpolated_row pn \<in> set out"
    by blast
  have same: "out = ?T" if "\<forall>pn \<in> set (successive ?T). \<not> two_hours_apart pn"
  proof -
    from that have "filter two_hours_apart (successive ?T) = []"
      by (simp add: filter_empty_conv)
    with out(2) have "mset out = mset ?T" by simp
    with strict out(1) show ?thesis
      by (intro sorted_unique_rows) (simp_all add: strict_sorted_iff)
  qed
  have row: "\<forall>p n. interpolated_row (p, n) =
          (fst p + 3600,
           \<lparr>solarradiation = mean_cell (solarradiation (snd p)) (solarradiation (snd n)),
            windspeed = mean_cell (windspeed (snd p)) (windspeed (snd n)),
            temp = mean_cell (temp (snd p)) (temp (snd n)),
            precip = mean_cell (precip (snd p)) (precip (snd n)),
            humidity = mean_cell (humidity (snd p)) (humidity (snd n))\<rparr>)"
    by (simp add: interpolated_row_def combine_mean_def)
  have cell: "\<forall>a b. mean_cell (Some a) (Some b) = Some ((a + b) / 2)"
    by (simp add: mean_cell_def)
  from each sets' same loop row cell show ?thesis
    by (intro conjI impI)
qed

theorem gap_handler_interpolates_witness:
  "sort_index_result
     (concat [[(7696800::timestamp, \<lparr>solarradiation = Some 0, windspeed = Some 14, temp = Some 7, precip = Some 1, humidity = Some 90\<rparr>)],
      [(7689600, \<lparr>solarradiation = Some 0, windspeed = Some 10, temp = Some 5, precip = Some 0, humidity = Some 80\<rparr>)]])
     [(7689600::timestamp, \<lparr>solarradiation = Some 0, windspeed = Some 10, temp = Some 5, precip = Some 0, humidity = Some 80\<rparr>),
      (7696800, \<lparr>solarradiation = Some 0, windspeed = Some 14, temp = Some 7, precip = Some 1, humidity = Some 90\<rparr>)]
   \<and> weather_gap_handler (keep_first
     [(7689600::timestamp, \<lparr>solarradiation = Some 0, windspeed = Some 10, temp = Some 5, precip = Some 0, humidity = Some 80\<rparr>),
      (7696800, \<lparr>solarradiation = Some 0, windspeed = Some 14, temp = Some 7, precip = Some 1, humidity = Some 90\<rparr>)])
     [(7689600::timestamp, \<lparr>solarradiation = Some 0, windspeed = Some 10, temp = Some 5, precip = Some 0, humidity = Some 80\<rparr>),
      (7693200, \<lparr>solarradiation = Some 0, windspeed = Some 12, temp = Some 6, precip = Some (1 / 2), humidity = Some 85\<rparr>),
      (7696800, \<lparr>solarradiation = Some 0, windspeed = Some 14, temp = Some 7, precip = Some 1, humidity = Some 90\<rparr>)]
   \<and> interpolated_row
       ((7689600, \<lparr>solarradiation = Some 0, windspeed = Some 10, temp = Some 5, precip = Some 0, humidity = Some 80\<rparr>),
        (7696800, \<lparr>solarradiation = Some 0, windspeed = Some 14, temp = Some 7, precip = Some 1, humidity = Some 90\<rparr>)) =
       (7693200, \<lparr>solarradiation = Some 0, windspeed = Some 12, temp = Some 6, precip = Some (1 / 2), humidity = Some 85\<rparr>)
   \<and> set [(7689600::timestamp, \<lparr>solarradiation = Some 0, windspeed = Some 10, temp = Some 5, precip = Some 0, humidity = Some 80\<rparr>),
      (7693200, \<lparr>solarradiation = Some 0, windspeed = Some 12, temp = Some 6, precip = Some (1 / 2), humidity = Some 85\<rparr>),
      (7696800, \<lparr>solarradiation = Some 0, windspeed = Some 14, temp = Some 7, precip = Some 1, humidity = Some 90\<rparr>)] =
       set (keep_first
     [(7689600::timestamp, \<lparr>solarradiation = Some 0, windspeed = Some 10, temp = Some 5, precip = Some 0, humidity = Some 80\<rparr>),
      (7696800, \<lparr>solarradiation = Some 0, windspeed = Some 14, temp = Some 7, precip = Some 1, humidity = Some 90\<rparr>)]) \<union>
       interpolated_row ` {pn \<in> set (successive (keep_first
     [(7689600::timestamp, \<lparr>solarradiation = Some 0, windspeed = Some 10, temp = Some 5, precip = Some 0, humidity = Some 80\<rparr>),
      (7696800, \<lparr>solarradiation = Some 0, windspeed = Some 14, temp = Some 7, precip = Some 1, humidity = Some 90\<rparr>)])). two_hours_apart pn}"
proof -
  have srt: "sort_index_result
     (concat [[(7696800::timestamp, \<lparr>solarradiation = Some 0, windspeed = Some 14, temp = Some 7, precip = Some 1, humidity = Some 90\<rparr>)],
      [(7689600, \<lparr>solarradiation = Some 0, windspeed = Some 10, temp = Some 5, precip = Some 0, humidity = Some 80\<rparr>)]])
     [(7689600::timestamp, \<lparr>solarradiation = Some 0, windspeed = Some 10, temp = Some 5, precip = Some 0, humidity = Some 80\<rparr>),
      (7696800, \<lparr>solarradiation = Some 0, windspeed = Some 14, temp = Some 7, precip = Some 1, humidity = Some 90\<rparr>)]"
    by (simp add: sort_index_result_def)
  have kept: "keep_first
     [(7689600::timestamp, \<lparr>solarradiation = Some 0, windspeed = Some 10, temp = Some 5, precip = Some 0, humidity = Some 80\<rparr>),
      (7696800, \<lparr>solarradiation = Some 0, windspeed = Some 14, temp = Some 7, precip = Some 1, humidity = Some 90\<rparr>)] =
     [(7689600::timestamp, \<lparr>solarradiation = Some 0, windspeed = Some 10, temp = Some 5, precip = Some 0, humidity = Some 80\<rparr>),
      (7696800, \<lparr>solarradiation = Some 0, windspeed = Some 14, temp = Some 7, precip = Some 1, humidity = Some 90\<rparr>)]"
    by (simp add: keep_first_def)
  have handled: "weather_gap_handler (keep_first
     [(7689600::timestamp, \<lparr>solarradiation = Some 0, windspeed = Some 10, temp = Some 5, precip = Some 0, humidity = Some 80\<rparr>),
      (7696800, \<lparr>solarradiation = Some 0, windspeed = Some 14, temp = Some 7, precip = Some 1, humidity = Some 90\<rparr>)])
     [(7689600::timestamp, \<lparr>solarradiation = Some 0, windspeed = Some 10, temp = Some 5, precip = Some 0, humidity = Some 80\<rparr>),
      (7693200, \<lparr>solarradiation = Some 0, windspeed = Some 12, temp = Some 6, precip = Some (1 / 2), humidity = Some 85\<rparr>),
      (7696800, \<lparr>solarradiation = Some 0, windspeed = Some 14, temp = Some 7, precip = Some 1, humidity = Some 90\<rparr>)]"
    unfolding kept
    by (simp add: weather_gap_handler_def unusual_entries_def loc_def set_loc_def
        combine_mean_def mean_cell_def sort_index_result_def)
  have row: "interpolated_row
       ((7689600, \<lparr>solarradiation = Some 0, windspeed = Some 10, temp = Some 5, precip = Some 0, humidity = Some 80\<rparr>),
        (7696800, \<lparr>solarradiation = Some 0, windspeed = Some 14, temp = Some 7, precip = Some 1, humidity = Some 90\<rparr>)) =
       (7693200, \<lparr>solarradiation = Some 0, windspeed = Some 12, temp = Some 6, precip = Some (1 / 2), humidity = Some 85\<rparr>)"
    by (simp add: interpolated_row_def combine_mean_def mean_cell_def)
  from gap_handler_interpolates [OF srt handled] srt handled row
  show ?thesis by blast
qed

subsection \<open>The hourly grid\<close>

lemma set_hourly_grid: "x \<in> set (hourly_grid s n) \<longleftrightarrow> (\<exists>i<n. x = s + 3600 * int i)"
  by (auto simp: hourly_grid_def)

lemma strict_sorted_hourly_grid: "sorted_wrt (<) (hourly_grid s n)"
  by (simp add: hourly_grid_def sorted_wrt_iff_nth_less)

lemma distinct_successive_prev:
  "distinct (map fst df) \<Longrightarrow> distinct (map (\<lambda>pn. fst (fst pn)) (successive df))"
proof -
  assume dist: "distinct (map fst df)"
  have "map (\<lambda>pn. fst (fst pn)) (successive df) = take (length (tl df)) (map fst df)"
    by (simp add: successive_def map_fst_zip_take take_map flip: map_map [unfolded comp_def])
  with dist show ?thesis by simp
qed

lemma single_gap_rows:
  assumes strict: "sorted_wrt (<) (map fst df)"
    and keys: "fst ` set df = set (hourly_grid s n) - {s + 3600 * int k}"
    and k: "0 < k" "k + 1 < n"
  shows "set (map fst (map interpolated_row (filter two_hours_apart (successive df)))) =
           {s + 3600 * int k}"
    and "distinct (map fst (map interpolated_row (filter two_hours_apart (successive df))))"
proof -
  let ?m = "s + 3600 * int k"
  have grid: "fst r \<in> set (hourly_grid s n) \<and> fst r \<noteq> ?m" if "r \<in> set df" for r
    using that keys by blast
  have only: "fst (fst pn) + 3600 = ?m"
    if "pn \<in> set (successive df)" "two_hours_apart pn" for pn
  proof (rule ccontr)
    assume other: "fst (fst pn) + 3600 \<noteq> ?m"
    from that(1) have mem: "(fst pn, snd pn) \<in> set (successive df)" by simp
    from successive_members [OF mem] have p: "fst pn \<in> set df" and nx: "snd pn \<in> set df"
      by simp_all
    from that(2) have two: "fst (snd pn) = fst (fst pn) + 7200"
      by (simp add: two_hours_apart_def)
    from grid [OF p] obtain i where i: "i < n" "fst (fst pn) = s + 3600 * int i"
      by (auto simp: set_hourly_grid)
    from grid [OF nx] obtain j where j: "j < n" "fst (snd pn) = s + 3600 * int j"
      by (auto simp: set_hourly_grid)
    from i j two have "j = i + 2" by simp
    with j have "Suc i < n" by simp
    then have "fst (fst pn) + 3600 \<in> set (hourly_grid s n)"
      unfolding set_hourly_grid using i(2) by (intro exI [of _ "Suc i"]) simp
    with other keys have "fst (fst pn) + 3600 \<in> fst ` set df" by simp
    then obtain r where r: "r \<in> set df" "fst r = fst (fst pn) + 3600" by force
    from successive_in_sorted [OF strict mem] r(1)
    have "fst r \<le> fst (fst pn) \<or> fst (snd pn) \<le> fst r" by simp
    with r(2) two show False by simp
  qed
  have "s + 3600 * int (k - 1) \<in> fst ` set df"
    unfolding keys set_hourly_grid Diff_iff using k
    by (intro conjI exI [of _ "k - 1"]) auto
  then obtain p where p: "p \<in> set df" "fst p = s + 3600 * int (k - 1)" by force
  have "s + 3600 * int (k + 1) \<in> fst ` set df"
    unfolding keys set_hourly_grid Diff_iff using k
    by (intro conjI exI [of _ "k + 1"]) auto
  then obtain nx where nx: "nx \<in> set df" "fst nx = s + 3600 * int (k + 1)" by force
  have between: "\<forall>r \<in> set df. fst r \<le> fst p \<or> fst nx \<le> fst r"
  proof
    fix r assume "r \<in> set df"
    from grid [OF this] obtain i where i: "i < n" "fst r = s + 3600 * int i" "i \<noteq> k"
      by (auto simp: set_hourly_grid)
    then have "i \<le> k - 1 \<or> k + 1 \<le> i" by arith
    with i(2) p(2) nx(2) k show "fst r \<le> fst p \<or> fst nx \<le> fst r"
      by auto
  qed
  from p(2) nx(2) k have lt: "fst p < fst nx" by simp
  from successive_of_neighbours [OF strict p(1) nx(1) lt between]
  have pair: "(p, nx) \<in> set (successive df)" .
  from p(2) nx(2) k have two: "two_hours_apart (p, nx)"
    by (simp add: two_hours_apart_def algebra_simps)
  from p(2) k have mid: "fst (interpolated_row (p, nx)) = ?m"
    by (simp add: interpolated_row_def algebra_simps)
  have keys_new: "map fst (map interpolated_row (filter two_hours_apart (successive df))) =
      map (\<lambda>pn. fst (fst pn) + 3600) (filter two_hours_apart (successive df))"
    by (simp add: interpolated_row_def comp_def)
  have only_m: "set (map (\<lambda>pn. fst (fst pn) + 3600) (filter two_hours_apart (successive df))) = {?m}"
  proof
    show "set (map (\<lambda>pn. fst (fst pn) + 3600) (filter two_hours_apart (successive df))) \<subseteq> {?m}"
      using only by auto
    from pair two have "(p, nx) \<in> set (filter two_hours_apart (successive df))" by simp
    then have "fst (fst (p, nx)) + 3600 \<in>
        set (map (\<lambda>pn. fst (fst pn) + 3600) (filter two_hours_apart (successive df)))"
      unfolding set_map by (rule imageI)
    with mid show "{?m} \<subseteq> set (map (\<lambda>pn. fst (fst pn) + 3600)
        (filter two_hours_apart (successive df)))"
      by (simp add: interpolated_row_def)
  qed
  show "set (map fst (map interpolated_row (filter two_hours_apart (successive df)))) = {?m}"
    unfolding keys_new by (rule only_m)
  from strict have "distinct (map fst df)" by (simp add: strict_sorted_iff)
  from distinct_successive_prev [OF this]
  have "distinct (map (\<lambda>pn. fst (fst pn)) (filter two_hours_apart (successive df)))"
    by (rule distinct_map_filter)
  then have "distinct (map (\<lambda>x. x + 3600)
      (map (\<lambda>pn. fst (fst pn)) (filter two_hours_apart (successive df))))"
    by (simp add: distinct_map inj_on_def)
  then have once: "distinct (map (\<lambda>pn. fst (fst pn) + 3600) (filter two_hours_apart (successive df)))"
    by (simp add: comp_def)
  show "distinct (map fst (map interpolated_row (filter two_hours_apart (successive df))))"
    unfolding keys_new by (rule once)
qed

text \<open>
  C7. When the timestamps of the concatenated sources, duplicates or not, are those of an
  hourly grid of \<open>n\<close> hours from \<open>s\<close> but for one hour that is neither the first nor the
  last, so that the two hours around it are two hours apart, every table the pipeline
  ends with has the timestamps of the whole grid in ascending order: one row per hour and
  no timestamp twice. The year 2013 is the grid of 8760 hours from 2013-01-01 00:00:00.
\<close>
theorem weather_output_hourly:
  assumes "fst ` set (concat df_list) = set (hourly_grid s n) - {s + 3600 * int k}"
    and "0 < k" and "k + 1 < n"
    and "sort_index_result (concat df_list) sorted_df"
    and "weather_gap_handler (keep_first sorted_df) out"
  shows "map fst out = hourly_grid s n \<and> length out = n
     \<and> distinct (map fst out) \<and> sorted (map fst out)"
proof -
  let ?T = "keep_first sorted_df"
  let ?new = "map interpolated_row (filter two_hours_apart (successive ?T))"
  let ?m = "s + 3600 * int k"
  from assms(4) have srt: "sorted (map fst sorted_df)"
    and same: "mset sorted_df = mset (concat df_list)"
    unfolding sort_index_result_def by blast+
  from mset_eq_setD [OF same] have "set sorted_df = set (concat df_list)" .
  with assms(1) have keys: "fst ` set ?T = set (hourly_grid s n) - {?m}"
    by (simp add: keep_first_def keys_drop_duplicated)
  from srt have strict: "sorted_wrt (<) (map fst ?T)"
    by (rule strict_sorted_keep_first)
  have new_set: "set (map fst ?new) = {?m}"
    by (rule single_gap_rows(1) [OF strict keys assms(2,3)])
  have new_dist: "distinct (map fst ?new)"
    by (rule single_gap_rows(2) [OF strict keys assms(2,3)])
  from fill_gaps_sorted [OF strict] assms(5)
  have out: "sorted (map fst out)" "mset out = mset (?T @ ?new)"
    by (simp_all add: weather_gap_handler_def sort_index_result_def)
  from arg_cong [OF out(2), of "image_mset fst"]
  have perm: "mset (map fst out) = mset (map fst (?T @ ?new))"
    by (simp only: mset_map)
  have keysT: "set (map fst ?T) = set (hourly_grid s n) - {?m}"
    using keys by simp
  from strict have "distinct (map fst ?T)"
    by (simp add: strict_sorted_iff)
  moreover have "set (map fst ?T) \<inter> set (map fst ?new) = {}"
    unfolding keysT new_set by simp
  ultimately have "distinct (map fst ?T @ map fst ?new)"
    using new_dist by (simp only: distinct_append simp_thms)
  then have "distinct (map fst (?T @ ?new))"
    by (simp only: map_append)
  with mset_eq_imp_distinct_iff [OF perm] have dist: "distinct (map fst out)"
    by (simp only:)
  from assms(3) have "?m \<in> set (hourly_grid s n)"
    unfolding set_hourly_grid by (intro exI [of _ k]) simp
  then have "(set (hourly_grid s n) - {?m}) \<union> {?m} = set (hourly_grid s n)"
    by blast
  then have "set (map fst ?T) \<union> set (map fst ?new) = set (hourly_grid s n)"
    unfolding keysT new_set .
  then have "set (map fst (?T @ ?new)) = set (hourly_grid s n)"
    by (simp only: map_append set_append)
  with mset_eq_setD [OF perm] have sets: "set (map fst out) = set (hourly_grid s n)"
    by (simp only:)
  from strict_sorted_hourly_grid [of s n]
  have "sorted (hourly_grid s n)" "distinct (hourly_grid s n)"
    by (simp_all add: strict_sorted_iff)
  with out(1) dist sets have grid: "map fst out = hourly_grid s n"
    by (intro sorted_distinct_set_unique)
  then have "length (map fst out) = length (hourly_grid s n)"
    by (simp only:)
  then have "length out = n"
    by (simp add: hourly_grid_def)
  with grid dist out(1) show ?thesis
    by (intro conjI)
qed

theorem weather_output_hourly_witness:
  "fst ` set (concat [[(0::timestamp, \<lparr>solarradiation = Some 0, windspeed = Some 10, temp = Some 5, precip = Some 0, humidity = Some 80\<rparr>),
       (7200, \<lparr>solarradiation = Some 0, windspeed = Some 14, temp = Some 7, precip = Some 1, humidity = Some 90\<rparr>)],
      [(7200, \<lparr>solarradiation = Some 0, windspeed = Some 15, temp = Some 8, precip = Some 1, humidity = Some 91\<rparr>),
       (10800, \<lparr>solarradiation = Some 3, windspeed = Some 9, temp = Some 9, precip = Some 0, humidity = Some 70\<rparr>)]]) = set (hourly_grid 0 4) - {0 + 3600 * int 1}
   \<and> (0::nat) < 1 \<and> (1::nat) + 1 < 4
   \<and> sort_index_result (concat [[(0::timestamp, \<lparr>solarradiation = Some 0, windspeed = Some 10, temp = Some 5, precip = Some 0, humidity = Some 80\<rparr>),
       (7200, \<lparr>solarradiation = Some 0, windspeed = Some 14, temp = Some 7, precip = Some 1, humidity = Some 90\<rparr>)],
      [(7200, \<lparr>solarradiation = Some 0, windspeed = Some 15, temp = Some 8, precip = Some 1, humidity = Some 91\<rparr>),
       (10800, \<lparr>solarradiation = Some 3, windspeed = Some 9, temp = Some 9, precip = Some 0, humidity = Some 70\<rparr>)]])
     [(0::timestamp, \<lparr>solarradiation = Some 0, windspeed = Some 10, temp = Some 5, precip = Some 0, humidity = Some 80\<rparr>),
      (7200, \<lparr>solarradiation = Some 0, windspeed = Some 14, temp = Some 7, precip = Some 1, humidity = Some 90\<rparr>),
      (7200, \<lparr>solarradiation = Some 0, windspeed = Some 15, temp = Some 8, precip = Some 1, humidity = Some 91\<rparr>),
      (10800, \<lparr>solarradiation = Some 3, windspeed = Some 9, temp = Some 9, precip = Some 0, humidity = Some 70\<rparr>)]
   \<and> weather_gap_handler (keep_first
     [(0::timestamp, \<lparr>solarradiation = Some 0, windspeed = Some 10, temp = Some 5, precip = Some 0, humidity = Some 80\<rparr>),
      (7200, \<lparr>solarradiation = Some 0, windspeed = Some 14, temp = Some 7, precip = Some 1, humidity = Some 90\<rparr>),
      (7200, \<lparr>solarradiation = Some 0, windspeed = Some 15, temp = Some 8, precip = Some 1, humidity = Some 91\<rparr>),
      (10800, \<lparr>solarradiation = Some 3, windspeed = Some 9, temp = Some 9, precip = Some 0, humidity = Some 70\<rparr>)])
     [(0::timestamp, \<lparr>solarradiation = Some 0, windspeed = Some 10, temp = Some 5, precip = Some 0, humidity = Some 80\<rparr>),
      (3600, \<lparr>solarradiation = Some 0, windspeed = Some 12, temp = Some 6, precip = Some (1 / 2), humidity = Some 85\<rparr>),
      (7200, \<lparr>solarradiation = Some 0, windspeed = Some 14, temp = Some 7, precip = Some 1, humidity = Some 90\<rparr>),
      (10800, \<lparr>solarradiation = Some 3, windspeed = Some 9, temp = Some 9, precip = Some 0, humidity = Some 70\<rparr>)]
   \<and> map fst
     [(0::timestamp, \<lparr>solarradiation = Some 0, windspeed = Some 10, temp = Some 5, precip = Some 0, humidity = Some 80\<rparr>),
      (3600, \<lparr>solarradiation = Some 0, windspeed = Some 12, temp = Some 6, precip = Some (1 / 2), humidity = Some 85\<rparr>),
      (7200, \<lparr>solarradiation = Some 0, windspeed = Some 14, temp = Some 7, precip = Some 1, humidity = Some 90\<rparr>),
      (10800, \<lparr>solarradiation = Some 3, windspeed = Some 9, temp = Some 9, precip = Some 0, humidity = Some 70\<rparr>)] = hourly_grid 0 4"
proof -
  have keys: "fst ` set (concat [[(0::timestamp, \<lparr>solarradiation = Some 0, windspeed = Some 10, temp = Some 5, precip = Some 0, humidity = Some 80\<rparr>),
       (7200, \<lparr>solarradiation = Some 0, windspeed = Some 14, temp = Some 7, precip = Some 1, humidity = Some 90\<rparr>)],
      [(7200, \<lparr>solarradiation = Some 0, windspeed = Some 15, temp = Some 8, precip = Some 1, humidity = Some 91\<rparr>),
       (10800, \<lparr>solarradiation = Some 3, windspeed = Some 9, temp = Some 9, precip = Some 0, humidity = Some 70\<rparr>)]]) = set (hourly_grid 0 4) - {0 + 3600 * int 1}"
    by (auto simp: hourly_grid_def)
  have srt: "sort_index_result (concat [[(0::timestamp, \<lparr>solarradiation = Some 0, windspeed = Some 10, temp = Some 5, precip = Some 0, humidity = Some 80\<rparr>),
       (7200, \<lparr>solarradiation = Some 0, windspeed = Some 14, temp = Some 7, precip = Some 1, humidity = Some 90\<rparr>)],
      [(7200, \<lparr>solarradiation = Some 0, windspeed = Some 15, temp = Some 8, precip = Some 1, humidity = Some 91\<rparr>),
       (10800, \<lparr>solarradiation = Some 3, windspeed = Some 9, temp = Some 9, precip = Some 0, humidity = Some 70\<rparr>)]])
     [(0::timestamp, \<lparr>solarradiation = Some 0, windspeed = Some 10, temp = Some 5, precip = Some 0, humidity = Some 80\<rparr>),
      (7200, \<lparr>solarradiation = Some 0, windspeed = Some 14, temp = Some 7, precip = Some 1, humidity = Some 90\<rparr>),
      (7200, \<lparr>solarradiation = Some 0, windspeed = Some 15, temp = Some 8, precip = Some 1, humidity = Some 91\<rparr>),
      (10800, \<lparr>solarradiation = Some 3, windspeed = Some 9, temp = Some 9, precip = Some 0, humidity = Some 70\<rparr>)]"
    by (simp add: sort_index_result_def)
  have kept: "keep_first
     [(0::timestamp, \<lparr>solarradiation = Some 0, windspeed = Some 10, temp = Some 5, precip = Some 0, humidity = Some 80\<rparr>),
      (7200, \<lparr>solarradiation = Some 0, windspeed = Some 14, temp = Some 7, precip = Some 1, humidity = Some 90\<rparr>),
      (7200, \<lparr>solarradiation = Some 0, windspeed = Some 15, temp = Some 8, precip = Some 1, humidity = Some 91\<rparr>),
      (10800, \<lparr>solarradiation = Some 3, windspeed = Some 9, temp = Some 9, precip = Some 0, humidity = Some 70\<rparr>)] =
     [(0::timestamp, \<lparr>solarradiation = Some 0, windspeed = Some 10, temp = Some 5, precip = Some 0, humidity = Some 80\<rparr>),
      (7200, \<lparr>solarradiation = Some 0, windspeed = Some 14, temp = Some 7, precip = Some 1, humidity = Some 90\<rparr>),
      (10800, \<lparr>solarradiation = Some 3, windspeed = Some 9, temp = Some 9, precip = Some 0, humidity = Some 70\<rparr>)]"
    by (simp add: keep_first_def)
  have handled: "weather_gap_handler (keep_first
     [(0::timestamp, \<lparr>solarradiation = Some 0, windspeed = Some 10, temp = Some 5, precip = Some 0, humidity = Some 80\<rparr>),
      (7200, \<lparr>solarradiation = Some 0, windspeed = Some 14, temp = Some 7, precip = Some 1, humidity = Some 90\<rparr>),
      (7200, \<lparr>solarradiation = Some 0, windspeed = Some 15, temp = Some 8, precip = Some 1, humidity = Some 91\<rparr>),
      (10800, \<lparr>solarradiation = Some 3, windspeed = Some 9, temp = Some 9, precip = Some 0, humidity = Some 70\<rparr>)])
     [(0::timestamp, \<lparr>solarradiation = Some 0, windspeed = Some 10, temp = Some 5, precip = Some 0, humidity = Some 80\<rparr>),
      (3600, \<lparr>solarradiation = Some 0, windspeed = Some 12, temp = Some 6, precip = Some (1 / 2), humidity = Some 85\<rparr>),
      (7200, \<lparr>solarradiation = Some 0, windspeed = Some 14, temp = Some 7, precip = Some 1, humidity = Some 90\<rparr>),
      (10800, \<lparr>solarradiation = Some 3, windspeed = Some 9, temp = Some 9, precip = Some 0, humidity = Some 70\<rparr>)]"
    unfolding kept
    by (simp add: weather_gap_handler_def unusual_entries_def loc_def set_loc_def
        combine_mean_def mean_cell_def sort_index_result_def)
  from weather_output_hourly [OF keys _ _ srt handled] keys srt handled
  show ?thesis by simp
qed

end
